theory Spec2Isabelle
  imports Main "HOL-Library.Char_ord" "HOL-Library.List_Lexorder"
begin

section \<open>LiquidityService (src/services/liquidity.js)\<close>

text \<open>
  The service talks to three collaborators that are not part of the file: the chain
  (allowance reads, approval and liquidity transactions, receipt polls, gas estimates),
  the static chain configuration (\<open>contract\<close>, \<open>abi\<close>) and the ethers library.
  The chain is a record of operations over an abstract world state \<open>'c\<close>; every
  operation returns the world it leaves behind, so that a later read may see what an
  earlier write or the passing of time did. A rejected promise is a value \<open>Inl error\<close>.
  Every method returns its result, the world after it and the list of collaborator
  calls it made, each with the answer it got. Log lines are not part of the model: the
  logger is a sink whose result is never read.
\<close>

subsection \<open>JavaScript values\<close>

type_synonym address = string
type_synonym hash = string

text \<open>
  A rejection value is an object with a \<open>code\<close> and a \<open>message\<close>, either of which
  may be absent. \<open>error.code\<close> is compared with \<open>===\<close> against the number -32008, so
  the model keeps apart a numeric code, a string code (ethers uses \<open>"TIMEOUT"\<close>,
  \<open>"NUMERIC_FAULT"\<close>, ...) and an absent one. \<open>new Error(m)\<close> has the message \<open>m\<close> and
  no code. A rejection that is not an \<open>Error\<close> (a bare JSON-RPC error object, say) may
  have no string message: its message is \<open>None\<close>.
\<close>

datatype js_code = CodeUndefined | CodeNumber int | CodeString string

datatype js_error = Error (err_code: js_code) (err_message: "string option")

text \<open>What reading \<open>.includes\<close> of an absent message raises.\<close>

definition typeError :: js_error where
  "typeError =
     Error CodeUndefined (Some ''Cannot read properties of undefined (reading includes)'')"

record receipt =
  status :: int

text \<open>\<open>String.prototype.includes\<close>: the pattern occurs as a contiguous run.\<close>

fun startsWith :: "string \<Rightarrow> string \<Rightarrow> bool" where
  "startsWith s [] = True"
| "startsWith [] (p # ps) = False"
| "startsWith (c # cs) (p # ps) = (c = p \<and> startsWith cs ps)"

fun str_includes :: "string \<Rightarrow> string \<Rightarrow> bool" where
  "str_includes [] p = (p = [])"
| "str_includes (c # cs) p = (startsWith (c # cs) p \<or> str_includes cs p)"

text \<open>
  \<open>String.prototype.toUpperCase\<close> on symbols written in ASCII: the letters a..z move to
  A..Z and every other character stays.
\<close>

definition toUpperCase_char :: "char \<Rightarrow> char" where
  "toUpperCase_char ch =
     (if CHR ''a'' \<le> ch \<and> ch \<le> CHR ''z'' then char_of (of_char ch - (32::nat)) else ch)"

definition toUpperCase :: "string \<Rightarrow> string" where
  "toUpperCase s = map toUpperCase_char s"

subsection \<open>ethers.parseEther\<close>

definition isDigit :: "char \<Rightarrow> bool" where
  "isDigit ch = (CHR ''0'' \<le> ch \<and> ch \<le> CHR ''9'')"

definition digitVal :: "char \<Rightarrow> nat" where
  "digitVal ch = of_char ch - 48"

definition digitsVal :: "string \<Rightarrow> nat" where
  "digitsVal ds = foldl (\<lambda>n ch. 10 * n + digitVal ch) 0 ds"

text \<open>
  Modelled from the spec: \<open>ethers.parseEther\<close> is library code, not part of the
  repository's sources. The spec has it convert a decimal-string human amount to a
  base-unit integer with the one fixed exponent of 18 decimals. The model follows the
  library's fixed-point reader: an optional minus sign, digits, an optional point,
  digits, with at least one digit; at most 18 significant decimals; the result within
  512 signed bits. Anything else raises.
\<close>

definition parseEther :: "string \<Rightarrow> js_error + int" where
  "parseEther v =
     (let neg = startsWith v ''-'';
          body = (if neg then tl v else v);
          whole = takeWhile isDigit body;
          rest = dropWhile isDigit body;
          frac = (if startsWith rest ''.'' then tl rest else rest);
          decimal = takeWhile isDigit frac;
          trailing = dropWhile isDigit frac
      in if trailing = [] \<and> 0 < length whole + length decimal then
           if list_all (\<lambda>ch. ch = CHR ''0'') (drop 18 decimal) then
             let padded = take 18 (decimal @ ''000000000000000000'');
                 mag = int (digitsVal (whole @ padded));
                 val = (if neg then - mag else mag)
             in if - (2 ^ 511) \<le> val \<and> val < 2 ^ 511 then Inr val
                else Inl (Error (CodeString ''NUMERIC_FAULT'') (Some ''overflow''))
           else Inl (Error (CodeString ''NUMERIC_FAULT'') (Some ''too many decimals for format''))
         else Inl (Error (CodeString ''INVALID_ARGUMENT'') (Some ''invalid FixedNumber string value'')))"

definition MaxUint256 :: int where
  "MaxUint256 = 2 ^ 256 - 1"

subsection \<open>Configuration and the chain gateway\<close>

text \<open>
  \<open>contract\<close> comes from \<open>../chains\<close>, which is not among the sources: the four
  addresses are parameters. Addresses are JavaScript strings, compared with \<open><\<close> code
  unit by code unit, which is the lexicographic order of \<open>string\<close>.
\<close>

record contract =
  WPHRS :: address
  USDT :: address
  USDC :: address
  ROUTER :: address

record mint_params =
  token0 :: address
  token1 :: address
  fee :: int
  tickLower :: int
  tickUpper :: int
  amount0Desired :: int
  amount1Desired :: int
  amount0Min :: int
  amount1Min :: int
  recipient :: address
  deadline :: nat

text \<open>What \<open>router.interface.encodeFunctionData\<close> is asked to encode.\<close>

datatype fragment = Mint mint_params | RefundETH | Multicall "string list"

record txParams =
  tx_to :: address
  tx_data :: string
  tx_value :: int
  tx_gasLimit :: nat

text \<open>
  The encoder of the router's ABI (\<open>abi.ROUTER\<close>, also from \<open>../chains\<close>) is a parameter:
  it returns the call data or raises.
\<close>

record config =
  contract :: contract
  walletAddress :: address
  encodeFunctionData :: "fragment \<Rightarrow> js_error + string"

record 'c gateway =
  allowance :: "'c \<Rightarrow> address \<Rightarrow> address \<Rightarrow> address \<Rightarrow> (js_error + int) \<times> 'c"
  approve :: "'c \<Rightarrow> address \<Rightarrow> address \<Rightarrow> int \<Rightarrow> (js_error + hash) \<times> 'c"
  provider_waitForTransaction ::
    "'c \<Rightarrow> hash \<Rightarrow> nat \<Rightarrow> nat \<Rightarrow> (js_error + receipt option) \<times> 'c"
  estimateGas :: "'c \<Rightarrow> txParams \<Rightarrow> (js_error + nat) \<times> 'c"
  sendTransaction :: "'c \<Rightarrow> txParams \<Rightarrow> (js_error + hash) \<times> 'c"
  setTimeout :: "'c \<Rightarrow> nat \<Rightarrow> 'c"
  dateNow :: "'c \<Rightarrow> nat"

text \<open>
  The calls a run makes, in order, each with its answer. \<open>ApproveTokenCall\<close> marks an
  entry into \<open>approveToken\<close> with its arguments; the others are calls that leave the
  service.
\<close>

datatype event =
    ApproveTokenCall address address int
  | AllowanceRead address address address "js_error + int"
  | ApproveTx address address int "js_error + hash"
  | PollReceipt hash nat nat "js_error + receipt option"
  | Delay nat
  | Encode fragment "js_error + string"
  | EstimateGas txParams "js_error + nat"
  | SendTransaction txParams "js_error + hash"

subsection \<open>waitForTransaction\<close>

text \<open>
  The \<open>try\<close> block of one attempt: poll with a 60 s timeout; a receipt with status 1 is
  the result, anything else (no receipt, another status) raises
  \<open>Transaction <hash> failed or reverted\<close>, an \<open>Error\<close> without a code.
\<close>

definition failedMessage :: "hash \<Rightarrow> string" where
  "failedMessage txHash = ''Transaction '' @ txHash @ '' failed or reverted''"

definition pollOnce ::
  "'c gateway \<Rightarrow> 'c \<Rightarrow> hash \<Rightarrow> nat \<Rightarrow> (js_error + receipt) \<times> 'c \<times> event" where
  "pollOnce gw c txHash confirmations =
     (case provider_waitForTransaction gw c txHash confirmations 60000 of
        (resp, c1) \<Rightarrow>
          ((case resp of
              Inl error \<Rightarrow> Inl error
            | Inr None \<Rightarrow> Inl (Error CodeUndefined (Some (failedMessage txHash)))
            | Inr (Some receipt) \<Rightarrow>
                if status receipt = 1 then Inr receipt
                else Inl (Error CodeUndefined (Some (failedMessage txHash)))),
           c1, PollReceipt txHash confirmations 60000 resp))"

text \<open>
  The test of the \<open>catch\<close> block that sends an error to the retry branch:
  \<open>error.code === -32008 || error.message.includes("eth_getTransactionReceipt")\<close>. The
  second operand is evaluated only when the first is false, and it raises a
  \<open>TypeError\<close> when the error has no string message. That exception is raised inside
  the \<open>catch\<close> block, so nothing catches it: it leaves \<open>waitForTransaction\<close>.
\<close>

definition isRetryable :: "js_error \<Rightarrow> js_error + bool" where
  "isRetryable error =
     (if err_code error = CodeNumber (- 32008) then Inr True
      else case err_message error of
             None \<Rightarrow> Inl typeError
           | Some message \<Rightarrow> Inr (str_includes message ''eth_getTransactionReceipt''))"

text \<open>
  The loop returns \<open>Inr (Some receipt)\<close>, \<open>Inr None\<close> for \<open>null\<close>, or \<open>Inl error\<close> when an
  exception leaves the method.
\<close>

function waitForTransaction_loop ::
  "'c gateway \<Rightarrow> 'c \<Rightarrow> hash \<Rightarrow> nat \<Rightarrow> nat \<Rightarrow> nat \<Rightarrow> nat
     \<Rightarrow> (js_error + receipt option) \<times> 'c \<times> event list"
where
  "waitForTransaction_loop gw c txHash confirmations retries delay attempt =
     (if attempt \<le> retries then
        (case pollOnce gw c txHash confirmations of
           (Inr receipt, c1, ev) \<Rightarrow> (Inr (Some receipt), c1, [ev])
         | (Inl error, c1, ev) \<Rightarrow>
             (case isRetryable error of
                Inl thrown \<Rightarrow> (Inl thrown, c1, [ev])
              | Inr retry \<Rightarrow>
                  if retry then
                    if attempt = retries then (Inr None, c1, [ev])
                    else
                      (case waitForTransaction_loop gw (setTimeout gw c1 delay) txHash
                              confirmations retries delay (attempt + 1) of
                         (r, c2, evs) \<Rightarrow> (r, c2, ev # Delay delay # evs))
                  else (Inr None, c1, [ev])))
      else (Inr None, c, []))"
  by pat_completeness auto
termination
  by (relation "measure (\<lambda>(gw, c, txHash, confirmations, retries, delay, attempt).
                  Suc retries - attempt)") auto

definition waitForTransaction ::
  "'c gateway \<Rightarrow> 'c \<Rightarrow> hash \<Rightarrow> nat \<Rightarrow> nat \<Rightarrow> nat
     \<Rightarrow> (js_error + receipt option) \<times> 'c \<times> event list" where
  "waitForTransaction gw c txHash confirmations retries delay =
     waitForTransaction_loop gw c txHash confirmations retries delay 1"

subsection \<open>approveToken\<close>

text \<open>
  The receipt or \<open>null\<close> that \<open>waitForTransaction\<close> returns is awaited and dropped; the
  method then returns \<open>true\<close>. A rejected allowance read, a rejected \<open>approve\<close> and an
  exception leaving \<open>waitForTransaction\<close> reach the \<open>catch\<close> block, which returns
  \<open>false\<close>.
\<close>

definition approveToken ::
  "'c gateway \<Rightarrow> config \<Rightarrow> 'c \<Rightarrow> address \<Rightarrow> address \<Rightarrow> int \<Rightarrow> bool \<times> 'c \<times> event list" where
  "approveToken gw cfg c tokenAddress spender amount =
     (case allowance gw c tokenAddress (walletAddress cfg) spender of
        (rd, c1) \<Rightarrow>
          (let entry = [ApproveTokenCall tokenAddress spender amount,
                        AllowanceRead tokenAddress (walletAddress cfg) spender rd]
           in case rd of
                Inl error \<Rightarrow> (False, c1, entry)
              | Inr allowance_v \<Rightarrow>
                  if allowance_v \<ge> amount then (True, c1, entry)
                  else
                    (case approve gw c1 tokenAddress spender MaxUint256 of
                       (tx, c2) \<Rightarrow>
                         (case tx of
                            Inl error \<Rightarrow>
                              (False, c2,
                               entry @ [ApproveTx tokenAddress spender MaxUint256 tx])
                          | Inr tx_hash \<Rightarrow>
                              (case waitForTransaction gw c2 tx_hash 1 5 5000 of
                                 (w, c3, evs) \<Rightarrow>
                                   ((case w of Inl error \<Rightarrow> False | Inr r \<Rightarrow> True), c3,
                                    entry @ [ApproveTx tokenAddress spender MaxUint256 tx]
                                      @ evs))))))"

subsection \<open>addLiquidity\<close>

text \<open>
  \<open>tokenMap\<close> is an object literal with the three keys. A key is looked up after
  \<open>toUpperCase\<close>, so it holds no lower-case letter and never names a property the
  literal inherits (\<open>constructor\<close>, \<open>toString\<close>, ...): any other key gives
  \<open>undefined\<close>, here \<open>None\<close>. \<open>!address\<close> holds for \<open>undefined\<close> and for the empty
  string.
\<close>

definition tokenMap :: "config \<Rightarrow> string \<Rightarrow> address option" where
  "tokenMap cfg =
     map_of [(''PHRS'', WPHRS (contract cfg)),
             (''USDT'', USDT (contract cfg)),
             (''USDC'', USDC (contract cfg))]"

definition falsy :: "address option \<Rightarrow> bool" where
  "falsy a = (case a of None \<Rightarrow> True | Some s \<Rightarrow> s = [])"

text \<open>Lines 83 to 86: the lower address is \<open>token0\<close>, and each amount follows its token.\<close>

definition order_token0 :: "address \<Rightarrow> address \<Rightarrow> address" where
  "order_token0 tokenAAddress tokenBAddress =
     (if tokenAAddress < tokenBAddress then tokenAAddress else tokenBAddress)"

definition order_token1 :: "address \<Rightarrow> address \<Rightarrow> address" where
  "order_token1 tokenAAddress tokenBAddress =
     (if tokenAAddress < tokenBAddress then tokenBAddress else tokenAAddress)"

definition desired0 :: "address \<Rightarrow> address \<Rightarrow> string \<Rightarrow> string \<Rightarrow> js_error + int" where
  "desired0 tokenAAddress tokenBAddress amountA amountB =
     (if tokenAAddress = order_token0 tokenAAddress tokenBAddress then parseEther amountA
      else parseEther amountB)"

definition desired1 :: "address \<Rightarrow> address \<Rightarrow> string \<Rightarrow> string \<Rightarrow> js_error + int" where
  "desired1 tokenAAddress tokenBAddress amountA amountB =
     (if tokenAAddress = order_token0 tokenAAddress tokenBAddress then parseEther amountB
      else parseEther amountA)"

text \<open>
  Lines 124 to 142: estimate the gas (500000 when the estimate is rejected), add the
  20 percent buffer in integer arithmetic, send, and wait for one confirmation with the
  default five attempts, 5000 ms apart.
\<close>

definition sendLiquidity ::
  "'c gateway \<Rightarrow> 'c \<Rightarrow> txParams \<Rightarrow> hash option \<times> 'c \<times> event list" where
  "sendLiquidity gw c txp =
     (case estimateGas gw c txp of
        (est, c1) \<Rightarrow>
          (let estimatedGas = (case est of Inl e \<Rightarrow> 500000 | Inr g \<Rightarrow> g);
               txp1 = txp\<lparr>tx_gasLimit := estimatedGas * 12 div 10\<rparr>
           in case sendTransaction gw c1 txp1 of
                (tx, c2) \<Rightarrow>
                  (case tx of
                     Inl error \<Rightarrow>
                       (None, c2, [EstimateGas txp est, SendTransaction txp1 tx])
                   | Inr tx_hash \<Rightarrow>
                       (case waitForTransaction gw c2 tx_hash 1 5 5000 of
                          (w, c3, evs) \<Rightarrow>
                            (case w of
                               Inr (Some receipt) \<Rightarrow>
                                 (Some tx_hash, c3,
                                  [EstimateGas txp est, SendTransaction txp1 tx] @ evs)
                             | Inr None \<Rightarrow>
                                 (None, c3,
                                  [EstimateGas txp est, SendTransaction txp1 tx] @ evs)
                             | Inl error \<Rightarrow>
                                 (None, c3,
                                  [EstimateGas txp est, SendTransaction txp1 tx] @ evs))))))"

text \<open>
  Lines 96 to 122: the mint parameters, the three encodings and the transaction
  request. The amounts are passed to the encoder as decimal strings of the integers
  kept here.
\<close>

definition mintParams ::
  "'c gateway \<Rightarrow> config \<Rightarrow> 'c \<Rightarrow> address \<Rightarrow> address \<Rightarrow> int \<Rightarrow> int \<Rightarrow> mint_params" where
  "mintParams gw cfg c tok0 tok1 amount0 amount1 =
     \<lparr>token0 = tok0, token1 = tok1, fee = 500, tickLower = - 887220, tickUpper = 887220,
      amount0Desired = amount0, amount1Desired = amount1, amount0Min = 0, amount1Min = 0,
      recipient = walletAddress cfg, deadline = dateNow gw c div 1000 + 1800\<rparr>"

definition mintLiquidity ::
  "'c gateway \<Rightarrow> config \<Rightarrow> 'c \<Rightarrow> address \<Rightarrow> address \<Rightarrow> int \<Rightarrow> int
     \<Rightarrow> hash option \<times> 'c \<times> event list" where
  "mintLiquidity gw cfg c tok0 tok1 amount0 amount1 =
     (let params = mintParams gw cfg c tok0 tok1 amount0 amount1;
          mintData = encodeFunctionData cfg (Mint params)
      in case mintData of
           Inl error \<Rightarrow> (None, c, [Encode (Mint params) mintData])
         | Inr mint_d \<Rightarrow>
             (let refundData = encodeFunctionData cfg RefundETH
              in case refundData of
                   Inl error \<Rightarrow>
                     (None, c, [Encode (Mint params) mintData, Encode RefundETH refundData])
                 | Inr refund_d \<Rightarrow>
                     (let multicallData = [mint_d, refund_d];
                          encoded = encodeFunctionData cfg (Multicall multicallData);
                          evs = [Encode (Mint params) mintData, Encode RefundETH refundData,
                                 Encode (Multicall multicallData) encoded]
                      in case encoded of
                           Inl error \<Rightarrow> (None, c, evs)
                         | Inr d \<Rightarrow>
                             (case sendLiquidity gw c
                                     \<lparr>tx_to = ROUTER (contract cfg), tx_data = d,
                                      tx_value =
                                        (if tok0 = WPHRS (contract cfg) then amount0
                                         else if tok1 = WPHRS (contract cfg) then amount1
                                         else 0),
                                      tx_gasLimit = 500000\<rparr> of
                                (r, c1, evs1) \<Rightarrow> (r, c1, evs @ evs1)))))"

text \<open>
  Lines 67 to 94, then the two parts above. Both approvals are requested before either
  result is looked at. Every exception inside the method, one leaving
  \<open>waitForTransaction\<close> included, is caught and turned into \<open>null\<close>; \<open>approveToken\<close>
  raises none.
\<close>

definition addLiquidity ::
  "'c gateway \<Rightarrow> config \<Rightarrow> 'c \<Rightarrow> string \<Rightarrow> string \<Rightarrow> string \<Rightarrow> string
     \<Rightarrow> hash option \<times> 'c \<times> event list" where
  "addLiquidity gw cfg c tokenA tokenB amountA amountB =
     (let tokenAAddress = tokenMap cfg (toUpperCase tokenA);
          tokenBAddress = tokenMap cfg (toUpperCase tokenB)
      in if falsy tokenAAddress \<or> falsy tokenBAddress then (None, c, [])
         else
           (case (tokenAAddress, tokenBAddress) of
              (Some addrA, Some addrB) \<Rightarrow>
                (case desired0 addrA addrB amountA amountB of
                   Inl error \<Rightarrow> (None, c, [])
                 | Inr amount0 \<Rightarrow>
                     (case desired1 addrA addrB amountA amountB of
                        Inl error \<Rightarrow> (None, c, [])
                      | Inr amount1 \<Rightarrow>
                          (case approveToken gw cfg c addrA (ROUTER (contract cfg)) amount0 of
                             (approvedA, c1, evsA) \<Rightarrow>
                               (case approveToken gw cfg c1 addrB (ROUTER (contract cfg))
                                       amount1 of
                                  (approvedB, c2, evsB) \<Rightarrow>
                                    if \<not> approvedA \<or> \<not> approvedB
                                    then (None, c2, evsA @ evsB)
                                    else
                                      (case mintLiquidity gw cfg c2 (order_token0 addrA addrB)
                                              (order_token1 addrA addrB) amount0 amount1 of
                                         (r, c3, evs) \<Rightarrow> (r, c3, evsA @ evsB @ evs))))))
            | _ \<Rightarrow> (None, c, [])))"

subsection \<open>Reading a run\<close>

text \<open>The kinds of call in a list of events.\<close>

fun isPoll :: "event \<Rightarrow> bool" where
  "isPoll (PollReceipt h n t r) = True"
| "isPoll e = False"

fun isApproveTx :: "event \<Rightarrow> bool" where
  "isApproveTx (ApproveTx t s v r) = True"
| "isApproveTx e = False"

text \<open>
  The events \<open>approveToken\<close> and \<open>waitForTransaction\<close> can make: no encoding, no gas
  estimate, no liquidity transaction.
\<close>

fun approvalEvent :: "event \<Rightarrow> bool" where
  "approvalEvent (Encode f r) = False"
| "approvalEvent (EstimateGas t r) = False"
| "approvalEvent (SendTransaction t r) = False"
| "approvalEvent e = True"

fun isSend :: "event \<Rightarrow> bool" where
  "isSend (SendTransaction t r) = True"
| "isSend e = False"

fun pollEvent :: "event \<Rightarrow> bool" where
  "pollEvent (PollReceipt h n t r) = True"
| "pollEvent (Delay d) = True"
| "pollEvent e = False"

text \<open>
  An answer to a poll on which the test of the \<open>catch\<close> block raises nothing: a
  receipt, no receipt, or a rejection that has the code -32008 or a string message.
\<close>

definition readable :: "js_error + receipt option \<Rightarrow> bool" where
  "readable resp =
     (case resp of
        Inl error \<Rightarrow> err_code error = CodeNumber (- 32008) \<or> err_message error \<noteq> None
      | Inr receipt \<Rightarrow> True)"

text \<open>
  What the provider answers to \<open>n\<close> polls of one transaction in a row, \<open>delay\<close>
  milliseconds apart, starting in world \<open>c\<close>.
\<close>

fun provider_answers ::
  "'c gateway \<Rightarrow> 'c \<Rightarrow> hash \<Rightarrow> nat \<Rightarrow> nat \<Rightarrow> nat \<Rightarrow> (js_error + receipt option) list" where
  "provider_answers gw c txHash confirmations delay 0 = []"
| "provider_answers gw c txHash confirmations delay (Suc n) =
     (case provider_waitForTransaction gw c txHash confirmations 60000 of
        (resp, c1) \<Rightarrow>
          resp # provider_answers gw (setTimeout gw c1 delay) txHash confirmations delay n)"

subsection \<open>A chain to run the service against\<close>

text \<open>
  A small chain for concrete runs. It keeps the wallet's allowance per token, the
  answers the next receipt polls will get (a confirmed receipt once the list is used
  up), the answer to a gas estimate, and whether an approval changes the allowance
  at once or stays without effect.
\<close>

record world =
  allowances :: "(address \<times> int) list"
  pending :: "(js_error + receipt option) list"
  gasAnswer :: "js_error + nat"
  approveTakesEffect :: bool
  clock :: nat

definition testGateway :: "world gateway" where
  "testGateway =
     \<lparr>allowance = (\<lambda>w tok owner sp.
          (Inr (case map_of (allowances w) tok of None \<Rightarrow> 0 | Some v \<Rightarrow> v), w)),
      approve = (\<lambda>w tok sp v.
          (Inr ''0xa1'',
           if approveTakesEffect w then w\<lparr>allowances := (tok, v) # allowances w\<rparr> else w)),
      provider_waitForTransaction = (\<lambda>w h conf tmo.
          (case pending w of
             [] \<Rightarrow> (Inr (Some \<lparr>status = 1\<rparr>), w)
           | r # rs \<Rightarrow> (r, w\<lparr>pending := rs\<rparr>))),
      estimateGas = (\<lambda>w txp. (gasAnswer w, w)),
      sendTransaction = (\<lambda>w txp. (Inr ''0xb2'', w)),
      setTimeout = (\<lambda>w ms. w\<lparr>clock := clock w + ms\<rparr>),
      dateNow = clock\<rparr>"

definition testConfig :: config where
  "testConfig =
     \<lparr>contract =
        \<lparr>WPHRS = ''0x76aa'', USDT = ''0xed59'', USDC = ''0xad90'', ROUTER = ''0x1a4d''\<rparr>,
      walletAddress = ''0x5e1f'',
      encodeFunctionData =
        (\<lambda>f. case f of
                Mint p \<Rightarrow> Inr ''0x88316456''
              | RefundETH \<Rightarrow> Inr ''0x12210e8a''
              | Multicall ds \<Rightarrow> Inr (''0xac9650d8'' @ concat ds))\<rparr>"

definition world0 :: world where
  "world0 =
     \<lparr>allowances = [], pending = [], gasAnswer = Inr 100000, approveTakesEffect = True,
      clock = 1700000000000\<rparr>"

section \<open>Properties\<close>

declare waitForTransaction_loop.simps [simp del]

subsection \<open>The message of a failed receipt\<close>

text \<open>
  The pattern \<open>eth_getTransactionReceipt\<close> holds no space and no letter of
  \<open>Transaction\<close> starts it, so it occurs in the message of a failed receipt exactly
  when it occurs in the transaction hash put into that message.
\<close>

lemma startsWith_append_space:
  "CHR '' '' \<notin> set p \<Longrightarrow> startsWith (s @ CHR '' '' # t) p = startsWith s p"
proof (induction s p rule: startsWith.induct)
  case (1 s)
  then show ?case by simp
next
  case (2 p ps)
  then show ?case by simp
next
  case (3 c cs p ps)
  then show ?case by simp
qed

lemma str_includes_suffix:
  "str_includes (h @ '' failed or reverted'') ''eth_getTransactionReceipt'' =
   str_includes h ''eth_getTransactionReceipt''"
proof (induction h)
  case Nil
  show ?case by simp
next
  case (Cons c cs)
  have "startsWith ((c # cs) @ CHR '' '' # ''failed or reverted'') ''eth_getTransactionReceipt'' =
        startsWith (c # cs) ''eth_getTransactionReceipt''"
    by (rule startsWith_append_space) simp
  with Cons show ?case by simp
qed

lemma failed_message_includes:
  "str_includes (failedMessage h) ''eth_getTransactionReceipt'' =
   str_includes h ''eth_getTransactionReceipt''"
proof -
  have "str_includes (failedMessage h) ''eth_getTransactionReceipt'' =
        str_includes (h @ '' failed or reverted'') ''eth_getTransactionReceipt''"
    by (simp add: failedMessage_def)
  then show ?thesis by (simp only: str_includes_suffix)
qed

subsection \<open>waitForTransaction: one attempt\<close>

lemma loop_failed_receipt:
  assumes "provider_waitForTransaction gw c txHash confirmations 60000 = (Inr (Some rc), c1)"
    and "status rc \<noteq> 1"
    and "\<not> str_includes txHash ''eth_getTransactionReceipt''"
    and "attempt \<le> retries"
  shows "waitForTransaction_loop gw c txHash confirmations retries delay attempt =
           (Inr None, c1, [PollReceipt txHash confirmations 60000 (Inr (Some rc))])"
  using assms
  by (subst waitForTransaction_loop.simps)
     (simp add: pollOnce_def isRetryable_def failed_message_includes)

text \<open>
  C3 (as the code has it). A receipt whose status is not 1 makes the attempt raise
  \<open>Transaction <hash> failed or reverted\<close>. That error has no code, and its message
  holds \<open>eth_getTransactionReceipt\<close> only if the hash does, so the \<open>catch\<close> block takes
  its last branch: \<open>waitForTransaction\<close> returns \<open>null\<close> on that very attempt, after
  this one poll, with no delay and no further poll.
\<close>

theorem failed_receipt_ends_wait:
  assumes "provider_waitForTransaction gw c txHash confirmations 60000 = (Inr (Some rc), c1)"
    and "status rc \<noteq> 1"
    and "\<not> str_includes txHash ''eth_getTransactionReceipt''"
    and "attempt \<le> retries"
  shows "waitForTransaction_loop gw c txHash confirmations retries delay attempt =
           (Inr None, c1, [PollReceipt txHash confirmations 60000 (Inr (Some rc))])"
  using assms by (rule loop_failed_receipt)

theorem failed_receipt_ends_wait_witness:
  "provider_waitForTransaction testGateway (world0\<lparr>pending := [Inr (Some \<lparr>status = 0\<rparr>)]\<rparr>)
      ''0xb2'' 1 60000 = (Inr (Some \<lparr>status = 0\<rparr>), world0\<lparr>pending := []\<rparr>)
   \<and> status \<lparr>status = 0\<rparr> \<noteq> 1
   \<and> \<not> str_includes ''0xb2'' ''eth_getTransactionReceipt''
   \<and> (1::nat) \<le> 5
   \<and> waitForTransaction_loop testGateway (world0\<lparr>pending := [Inr (Some \<lparr>status = 0\<rparr>)]\<rparr>)
        ''0xb2'' 1 5 5000 1 =
        (Inr None, world0\<lparr>pending := []\<rparr>, [PollReceipt ''0xb2'' 1 60000 (Inr (Some \<lparr>status = 0\<rparr>))])"
proof -
  have p: "provider_waitForTransaction testGateway
             (world0\<lparr>pending := [Inr (Some \<lparr>status = 0\<rparr>)]\<rparr>) ''0xb2'' 1 60000 =
           (Inr (Some \<lparr>status = 0\<rparr>), world0\<lparr>pending := []\<rparr>)"
    by (simp add: testGateway_def world0_def)
  have s: "status \<lparr>status = 0\<rparr> \<noteq> 1" by simp
  have h: "\<not> str_includes ''0xb2'' ''eth_getTransactionReceipt''" by simp
  have a: "(1::nat) \<le> 5" by simp
  show ?thesis
    using p s h a failed_receipt_ends_wait [OF p s h a, of 5000] by simp
qed

text \<open>
  The claim as the spec words it fails: with five attempts allowed and a chain that
  would confirm on the second poll, a first receipt of status 0 ends the wait with
  \<open>null\<close> after a single poll and no delay.
\<close>

theorem reverted_receipt_not_retried:
  "waitForTransaction testGateway (world0\<lparr>pending := [Inr (Some \<lparr>status = 0\<rparr>)]\<rparr>)
      ''0xb2'' 1 5 5000 =
     (Inr None, world0\<lparr>pending := []\<rparr>, [PollReceipt ''0xb2'' 1 60000 (Inr (Some \<lparr>status = 0\<rparr>))])"
  by (simp add: waitForTransaction_def waitForTransaction_loop.simps pollOnce_def
        isRetryable_def failedMessage_def testGateway_def world0_def)

subsection \<open>waitForTransaction: the retry loop\<close>

text \<open>What one attempt polls and what its \<open>try\<close> block makes of the answer.\<close>

lemma pollOnce_shape:
  assumes "pollOnce gw c txHash confirmations = (res, c1, ev)"
  shows "\<exists>resp. provider_waitForTransaction gw c txHash confirmations 60000 = (resp, c1) \<and>
           ev = PollReceipt txHash confirmations 60000 resp \<and>
           res = (case resp of
                    Inl error \<Rightarrow> Inl error
                  | Inr None \<Rightarrow> Inl (Error CodeUndefined (Some (failedMessage txHash)))
                  | Inr (Some receipt) \<Rightarrow>
                      if status receipt = 1 then Inr receipt
                      else Inl (Error CodeUndefined (Some (failedMessage txHash))))"
  using assms by (auto simp: pollOnce_def split: prod.splits)

lemma pollOnce_received:
  "pollOnce gw c txHash confirmations = (Inr receipt, c1, ev) \<Longrightarrow>
   status receipt = 1 \<and> ev = PollReceipt txHash confirmations 60000 (Inr (Some receipt))"
  by (auto simp: pollOnce_def split: prod.splits sum.splits option.splits if_splits)

lemma pollOnce_failed:
  "pollOnce gw c txHash confirmations = (Inl error, c1, PollReceipt h n t (Inr ro)) \<Longrightarrow>
   error = Error CodeUndefined (Some (failedMessage txHash))"
  by (auto simp: pollOnce_def split: prod.splits sum.splits option.splits if_splits)

lemma pollOnce_isPoll:
  "pollOnce gw c txHash confirmations = (res, c1, ev) \<Longrightarrow> isPoll ev \<and> pollEvent ev"
  by (auto dest: pollOnce_shape)

lemma failed_error_test:
  "isRetryable (Error CodeUndefined (Some (failedMessage txHash))) =
     Inr (str_includes txHash ''eth_getTransactionReceipt'')"
  by (simp add: isRetryable_def failed_message_includes)

text \<open>One attempt of the loop, by what the provider answers.\<close>

lemma loop_step_retry:
  assumes "provider_waitForTransaction gw c txHash confirmations 60000 = (Inl e, c1)"
    and "isRetryable e = Inr True" and "attempt < retries"
  shows "waitForTransaction_loop gw c txHash confirmations retries delay attempt =
           (case waitForTransaction_loop gw (setTimeout gw c1 delay) txHash confirmations
                   retries delay (Suc attempt) of
              (r, c2, evs) \<Rightarrow>
                (r, c2, PollReceipt txHash confirmations 60000 (Inl e) # Delay delay # evs))"
  using assms
  by (subst waitForTransaction_loop.simps) (simp add: pollOnce_def)

lemma loop_step_exhausted:
  assumes "provider_waitForTransaction gw c txHash confirmations 60000 = (Inl e, c1)"
    and "isRetryable e = Inr True"
  shows "waitForTransaction_loop gw c txHash confirmations retries delay retries =
           (Inr None, c1, [PollReceipt txHash confirmations 60000 (Inl e)])"
  using assms
  by (subst waitForTransaction_loop.simps) (simp add: pollOnce_def)

lemma loop_step_fatal:
  assumes "provider_waitForTransaction gw c txHash confirmations 60000 = (Inl e, c1)"
    and "isRetryable e = Inr False" and "attempt \<le> retries"
  shows "waitForTransaction_loop gw c txHash confirmations retries delay attempt =
           (Inr None, c1, [PollReceipt txHash confirmations 60000 (Inl e)])"
  using assms
  by (subst waitForTransaction_loop.simps) (simp add: pollOnce_def)

lemma loop_step_throw:
  assumes "provider_waitForTransaction gw c txHash confirmations 60000 = (Inl e, c1)"
    and "isRetryable e = Inl thrown" and "attempt \<le> retries"
  shows "waitForTransaction_loop gw c txHash confirmations retries delay attempt =
           (Inl thrown, c1, [PollReceipt txHash confirmations 60000 (Inl e)])"
  using assms
  by (subst waitForTransaction_loop.simps) (simp add: pollOnce_def)

lemma loop_step_success:
  assumes "provider_waitForTransaction gw c txHash confirmations 60000 = (Inr (Some rc), c1)"
    and "status rc = 1" and "attempt \<le> retries"
  shows "waitForTransaction_loop gw c txHash confirmations retries delay attempt =
           (Inr (Some rc), c1, [PollReceipt txHash confirmations 60000 (Inr (Some rc))])"
  using assms
  by (subst waitForTransaction_loop.simps) (simp add: pollOnce_def)

lemma loop_step_over:
  "retries < attempt \<Longrightarrow>
   waitForTransaction_loop gw c txHash confirmations retries delay attempt = (Inr None, c, [])"
  by (subst waitForTransaction_loop.simps) simp

text \<open>The ways through one turn of the loop.\<close>

lemma loop_cases:
  obtains (past) "retries < attempt"
      "waitForTransaction_loop gw c txHash confirmations retries delay attempt =
         (Inr None, c, [])"
  | (received) receipt c1 ev where "attempt \<le> retries"
      "pollOnce gw c txHash confirmations = (Inr receipt, c1, ev)"
      "waitForTransaction_loop gw c txHash confirmations retries delay attempt =
         (Inr (Some receipt), c1, [ev])"
  | (raised) error c1 ev thrown where "attempt \<le> retries"
      "pollOnce gw c txHash confirmations = (Inl error, c1, ev)"
      "isRetryable error = Inl thrown"
      "waitForTransaction_loop gw c txHash confirmations retries delay attempt =
         (Inl thrown, c1, [ev])"
  | (fatal) error c1 ev where "attempt \<le> retries"
      "pollOnce gw c txHash confirmations = (Inl error, c1, ev)"
      "isRetryable error = Inr False"
      "waitForTransaction_loop gw c txHash confirmations retries delay attempt =
         (Inr None, c1, [ev])"
  | (exhausted) error c1 ev where "attempt = retries"
      "pollOnce gw c txHash confirmations = (Inl error, c1, ev)"
      "isRetryable error = Inr True"
      "waitForTransaction_loop gw c txHash confirmations retries delay attempt =
         (Inr None, c1, [ev])"
  | (again) error c1 ev where "attempt < retries"
      "pollOnce gw c txHash confirmations = (Inl error, c1, ev)"
      "isRetryable error = Inr True"
      "waitForTransaction_loop gw c txHash confirmations retries delay attempt =
         (case waitForTransaction_loop gw (setTimeout gw c1 delay) txHash confirmations
                 retries delay (Suc attempt) of
            (r, c2, evs) \<Rightarrow> (r, c2, ev # Delay delay # evs))"
proof (cases "attempt \<le> retries")
  case False
  then show ?thesis by (intro past) (simp_all add: loop_step_over)
next
  case le: True
  obtain res c1 ev where p: "pollOnce gw c txHash confirmations = (res, c1, ev)"
    using prod_cases3 by blast
  show ?thesis
  proof (cases res)
    case (Inr receipt)
    with le p show ?thesis
      by (intro received [of receipt c1 ev]) (simp_all add: waitForTransaction_loop.simps [of gw c])
  next
    case (Inl error)
    show ?thesis
    proof (cases "isRetryable error")
      case thrown: (Inl thrown)
      with le p Inl show ?thesis
        by (intro raised [of error c1 ev thrown])
           (simp_all add: waitForTransaction_loop.simps [of gw c])
    next
      case b: (Inr b)
      show ?thesis
      proof (cases b)
        case False
        with le p Inl b show ?thesis
          by (intro fatal [of error c1 ev])
             (simp_all add: waitForTransaction_loop.simps [of gw c])
      next
        case True
        show ?thesis
        proof (cases "attempt = retries")
          case eq: True
          with le p Inl b True show ?thesis
            by (intro exhausted [of error c1 ev])
               (simp_all add: waitForTransaction_loop.simps [of gw c])
        next
          case False
          with le have lt: "attempt < retries" by simp
          with p Inl b True show ?thesis
            by (intro again [of error c1 ev])
               (simp_all add: waitForTransaction_loop.simps [of gw c])
        qed
      qed
    qed
  qed
qed

text \<open>Runs of several attempts, by the answers the provider gives in a row.\<close>

lemma loop_retry_then_success:
  assumes "provider_answers gw c txHash confirmations delay (Suc (length es)) =
             map Inl es @ [Inr (Some rc)]"
    and "list_all (\<lambda>e. isRetryable e = Inr True) es" and "status rc = 1"
    and "attempt + length es \<le> retries"
  shows "fst (waitForTransaction_loop gw c txHash confirmations retries delay attempt) =
           Inr (Some rc) \<and>
         length (filter isPoll (snd (snd
           (waitForTransaction_loop gw c txHash confirmations retries delay attempt)))) =
           Suc (length es)"
  using assms
proof (induction es arbitrary: c attempt)
  case Nil
  obtain resp c1 where p: "provider_waitForTransaction gw c txHash confirmations 60000 = (resp, c1)"
    by (cases "provider_waitForTransaction gw c txHash confirmations 60000") auto
  with Nil have "resp = Inr (Some rc)" by simp
  with p Nil show ?case by (simp add: loop_step_success)
next
  case (Cons e es)
  obtain resp c1 where p: "provider_waitForTransaction gw c txHash confirmations 60000 = (resp, c1)"
    by (cases "provider_waitForTransaction gw c txHash confirmations 60000") auto
  with Cons.prems have resp: "resp = Inl e"
    and rest: "provider_answers gw (setTimeout gw c1 delay) txHash confirmations delay
                 (Suc (length es)) = map Inl es @ [Inr (Some rc)]"
    by simp_all
  from Cons.prems have e: "isRetryable e = Inr True"
    and es: "list_all (\<lambda>e. isRetryable e = Inr True) es"
    and lt: "attempt < retries" and le: "Suc attempt + length es \<le> retries"
    by simp_all
  note ih = Cons.IH [OF rest es Cons.prems(3) le]
  show ?case
    using ih by (auto simp add: loop_step_retry [OF p[unfolded resp] e lt] split: prod.splits)
qed

lemma loop_retry_exhausted:
  assumes "provider_answers gw c txHash confirmations delay (length es) = map Inl es"
    and "list_all (\<lambda>e. isRetryable e = Inr True) es" and "attempt + length es = Suc retries"
  shows "fst (waitForTransaction_loop gw c txHash confirmations retries delay attempt) =
           Inr None \<and>
         length (filter isPoll (snd (snd
           (waitForTransaction_loop gw c txHash confirmations retries delay attempt)))) =
           length es"
  using assms
proof (induction es arbitrary: c attempt)
  case Nil
  then show ?case by (simp add: loop_step_over)
next
  case (Cons e es)
  obtain resp c1 where p: "provider_waitForTransaction gw c txHash confirmations 60000 = (resp, c1)"
    by (cases "provider_waitForTransaction gw c txHash confirmations 60000") auto
  with Cons.prems have resp: "resp = Inl e"
    and rest: "provider_answers gw (setTimeout gw c1 delay) txHash confirmations delay
                 (length es) = map Inl es"
    by simp_all
  from Cons.prems have e: "isRetryable e = Inr True"
    and es: "list_all (\<lambda>e. isRetryable e = Inr True) es"
    and le: "Suc attempt + length es = Suc retries"
    by simp_all
  show ?case
  proof (cases "attempt = retries")
    case True
    with le have "es = []" by simp
    with True show ?thesis by (simp add: loop_step_exhausted [OF p[unfolded resp] e])
  next
    case False
    with le have lt: "attempt < retries" by simp
    note ih = Cons.IH [OF rest es le]
    show ?thesis
      using ih by (auto simp add: loop_step_retry [OF p[unfolded resp] e lt] split: prod.splits)
  qed
qed

lemma loop_retry_then_fatal:
  assumes "provider_answers gw c txHash confirmations delay (Suc (length es)) =
             map Inl es @ [Inl e']"
    and "list_all (\<lambda>e. isRetryable e = Inr True) es" and "isRetryable e' = Inr False"
    and "attempt + length es \<le> retries"
  shows "fst (waitForTransaction_loop gw c txHash confirmations retries delay attempt) =
           Inr None \<and>
         length (filter isPoll (snd (snd
           (waitForTransaction_loop gw c txHash confirmations retries delay attempt)))) =
           Suc (length es)"
  using assms
proof (induction es arbitrary: c attempt)
  case Nil
  obtain resp c1 where p: "provider_waitForTransaction gw c txHash confirmations 60000 = (resp, c1)"
    by (cases "provider_waitForTransaction gw c txHash confirmations 60000") auto
  with Nil have "resp = Inl e'" by simp
  with p Nil show ?case by (simp add: loop_step_fatal)
next
  case (Cons e es)
  obtain resp c1 where p: "provider_waitForTransaction gw c txHash confirmations 60000 = (resp, c1)"
    by (cases "provider_waitForTransaction gw c txHash confirmations 60000") auto
  with Cons.prems have resp: "resp = Inl e"
    and rest: "provider_answers gw (setTimeout gw c1 delay) txHash confirmations delay
                 (Suc (length es)) = map Inl es @ [Inl e']"
    by simp_all
  from Cons.prems have e: "isRetryable e = Inr True"
    and es: "list_all (\<lambda>e. isRetryable e = Inr True) es"
    and lt: "attempt < retries" and le: "Suc attempt + length es \<le> retries"
    by simp_all
  note ih = Cons.IH [OF rest es Cons.prems(3) le]
  show ?case
    using ih by (auto simp add: loop_step_retry [OF p[unfolded resp] e lt] split: prod.splits)
qed

lemma loop_polls_bound:
  "length (filter isPoll (snd (snd
     (waitForTransaction_loop gw c txHash confirmations retries delay attempt))))
     \<le> Suc retries - attempt"
proof (induction "Suc retries - attempt" arbitrary: c attempt rule: less_induct)
  case less
  show ?case
  proof (cases rule: loop_cases [where gw = gw and c = c and txHash = txHash
           and confirmations = confirmations and retries = retries and delay = delay
           and attempt = attempt])
    case past
    then show ?thesis by simp
  next
    case (received receipt c1 ev)
    with pollOnce_isPoll [OF received(2)] show ?thesis by simp
  next
    case (raised error c1 ev thrown)
    with pollOnce_isPoll [OF raised(2)] show ?thesis by simp
  next
    case (fatal error c1 ev)
    with pollOnce_isPoll [OF fatal(2)] show ?thesis by simp
  next
    case (exhausted error c1 ev)
    with pollOnce_isPoll [OF exhausted(2)] show ?thesis by simp
  next
    case (again error c1 ev)
    have "length (filter isPoll (snd (snd (waitForTransaction_loop gw (setTimeout gw c1 delay)
              txHash confirmations retries delay (Suc attempt))))) \<le> Suc retries - Suc attempt"
      using again(1) by (intro less.hyps) simp
    with again pollOnce_isPoll [OF again(2)] show ?thesis
      by (auto split: prod.splits)
  qed
qed

lemma length_provider_answers:
  "length (provider_answers gw c txHash confirmations delay n) = n"
  by (induction n arbitrary: c) (auto split: prod.splits)

text \<open>
  When the test of the \<open>catch\<close> block can be evaluated on every answer the loop may
  meet, no exception leaves the loop.
\<close>

lemma readable_test: "readable (Inl e) \<Longrightarrow> \<exists>b. isRetryable e = Inr b"
  by (auto simp: readable_def isRetryable_def)

lemma loop_no_throw:
  assumes "list_all readable
             (provider_answers gw c txHash confirmations delay (Suc retries - attempt))"
  shows "\<exists>ro. fst (waitForTransaction_loop gw c txHash confirmations retries delay attempt) =
           Inr ro"
  using assms
proof (induction "Suc retries - attempt" arbitrary: c attempt rule: less_induct)
  case less
  show ?case
  proof (cases rule: loop_cases [where gw = gw and c = c and txHash = txHash
           and confirmations = confirmations and retries = retries and delay = delay
           and attempt = attempt])
    case past
    then show ?thesis by simp
  next
    case (received receipt c1 ev)
    then show ?thesis by simp
  next
    case (raised error c1 ev thrown)
    from pollOnce_shape [OF raised(2)] obtain resp where
      p: "provider_waitForTransaction gw c txHash confirmations 60000 = (resp, c1)"
      and res: "Inl error = (case resp of
                    Inl error \<Rightarrow> Inl error
                  | Inr None \<Rightarrow> Inl (Error CodeUndefined (Some (failedMessage txHash)))
                  | Inr (Some receipt) \<Rightarrow>
                      if status receipt = 1 then Inr receipt
                      else Inl (Error CodeUndefined (Some (failedMessage txHash))))"
      by blast
    from raised(1) obtain k where k: "Suc retries - attempt = Suc k"
      by (cases "Suc retries - attempt") auto
    from less.prems p k have rd: "readable resp" by simp
    have "\<exists>b. isRetryable error = Inr b"
    proof (cases resp)
      case (Inl e)
      with res rd show ?thesis by (auto dest: readable_test)
    next
      case (Inr ro)
      with res have "error = Error CodeUndefined (Some (failedMessage txHash))"
        by (auto split: option.splits if_splits)
      then show ?thesis by (simp add: failed_error_test)
    qed
    with raised(3) show ?thesis by simp
  next
    case (fatal error c1 ev)
    then show ?thesis by simp
  next
    case (exhausted error c1 ev)
    then show ?thesis by simp
  next
    case (again error c1 ev)
    from pollOnce_shape [OF again(2)] obtain resp where
      p: "provider_waitForTransaction gw c txHash confirmations 60000 = (resp, c1)"
      by blast
    from again(1) have k: "Suc retries - attempt = Suc (Suc retries - Suc attempt)" by simp
    from less.prems p have rest: "list_all readable
        (provider_answers gw (setTimeout gw c1 delay) txHash confirmations delay
           (Suc retries - Suc attempt))"
      by (subst (asm) k) simp
    have "\<exists>ro. fst (waitForTransaction_loop gw (setTimeout gw c1 delay) txHash confirmations
                      retries delay (Suc attempt)) = Inr ro"
      using again(1) rest by (intro less.hyps) simp_all
    with again(4) show ?thesis by (auto split: prod.splits)
  qed
qed

text \<open>
  C6 (as the code has it). \<open>waitForTransaction\<close> ends after at most \<open>retries\<close> polls
  (five by default). When every answer it may meet is a receipt, no receipt, or a
  rejection that has the code -32008 or a string message, no exception leaves it: it
  returns a receipt or \<open>null\<close>. When the provider first answers with retryable errors
  (code -32008, or a message holding \<open>eth_getTransactionReceipt\<close>) and then, within the
  attempts allowed, with a receipt of status 1, that receipt is returned. When all
  \<open>retries\<close> polls fail with retryable errors the result is \<open>null\<close>. When a poll fails
  with an error whose message does not hold the pattern and whose code is another, the
  result is \<open>null\<close> and that poll is the last.
\<close>

theorem waitForTransaction_bounded_retry:
  assumes "waitForTransaction gw c txHash confirmations retries delay = (r, c', evs)"
  shows "length (filter isPoll evs) \<le> retries
    \<and> (list_all readable (provider_answers gw c txHash confirmations delay retries)
          \<longrightarrow> (\<exists>ro. r = Inr ro))
    \<and> (\<forall>es rc.
          provider_answers gw c txHash confirmations delay (Suc (length es)) =
            map Inl es @ [Inr (Some rc)]
          \<and> list_all (\<lambda>e. isRetryable e = Inr True) es \<and> status rc = 1
          \<and> length es < retries
          \<longrightarrow> r = Inr (Some rc) \<and> length (filter isPoll evs) = Suc (length es))
    \<and> (\<forall>es.
          provider_answers gw c txHash confirmations delay retries = map Inl es
          \<and> list_all (\<lambda>e. isRetryable e = Inr True) es
          \<longrightarrow> r = Inr None \<and> length (filter isPoll evs) = retries)
    \<and> (\<forall>es e.
          provider_answers gw c txHash confirmations delay (Suc (length es)) =
            map Inl es @ [Inl e]
          \<and> list_all (\<lambda>e. isRetryable e = Inr True) es \<and> isRetryable e = Inr False
          \<and> length es < retries
          \<longrightarrow> r = Inr None \<and> length (filter isPoll evs) = Suc (length es))"
proof -
  let ?run = "waitForTransaction_loop gw c txHash confirmations retries delay 1"
  have run: "?run = (r, c', evs)" using assms by (simp add: waitForTransaction_def)
  have bound: "length (filter isPoll evs) \<le> retries"
    using loop_polls_bound [of gw c txHash confirmations retries delay 1] run by simp
  have quiet: "\<exists>ro. r = Inr ro"
    if "list_all readable (provider_answers gw c txHash confirmations delay retries)"
    using loop_no_throw [of gw c txHash confirmations delay retries 1] that run by simp
  have success: "r = Inr (Some rc) \<and> length (filter isPoll evs) = Suc (length es)"
    if "provider_answers gw c txHash confirmations delay (Suc (length es)) =
          map Inl es @ [Inr (Some rc)]"
      and "list_all (\<lambda>e. isRetryable e = Inr True) es" and "status rc = 1"
      and "length es < retries"
    for es rc
    using loop_retry_then_success [OF that(1-3), of 1 retries] that(4) run by simp
  have exhausted: "r = Inr None \<and> length (filter isPoll evs) = retries"
    if a: "provider_answers gw c txHash confirmations delay retries = map Inl es"
      and b: "list_all (\<lambda>e. isRetryable e = Inr True) es"
    for es
  proof -
    have len: "length es = retries"
      using length_provider_answers [of gw c txHash confirmations delay retries] a by simp
    from a len have a': "provider_answers gw c txHash confirmations delay (length es) = map Inl es"
      by simp
    show ?thesis
      using loop_retry_exhausted [OF a' b, of 1 retries] len run by simp
  qed
  have fatal: "r = Inr None \<and> length (filter isPoll evs) = Suc (length es)"
    if "provider_answers gw c txHash confirmations delay (Suc (length es)) =
          map Inl es @ [Inl e]"
      and "list_all (\<lambda>e. isRetryable e = Inr True) es" and "isRetryable e = Inr False"
      and "length es < retries"
    for es e
    using loop_retry_then_fatal [OF that(1-3), of 1 retries] that(4) run by simp
  from bound quiet success exhausted fatal show ?thesis by blast
qed

theorem waitForTransaction_bounded_retry_witness:
  "fst (waitForTransaction testGateway
          (world0\<lparr>pending := [Inl (Error (CodeNumber (- 32008)) (Some ''unknown block'')),
                               Inl (Error CodeUndefined
                                      (Some ''eth_getTransactionReceipt unavailable''))]\<rparr>)
          ''0xb2'' 1 5 5000) = Inr (Some \<lparr>status = 1\<rparr>)
   \<and> (\<exists>ro. fst (waitForTransaction testGateway
          (world0\<lparr>pending := [Inl (Error (CodeNumber (- 32008)) None),
                               Inl (Error (CodeString ''TIMEOUT'') (Some ''timeout''))]\<rparr>)
          ''0xb2'' 1 5 5000) = Inr ro)
   \<and> fst (waitForTransaction testGateway
          (world0\<lparr>pending := [Inl (Error (CodeNumber (- 32008)) (Some ''unknown block'')),
                               Inl (Error (CodeNumber (- 32008)) (Some ''unknown block'')),
                               Inl (Error (CodeNumber (- 32008)) (Some ''unknown block'')),
                               Inl (Error (CodeNumber (- 32008)) (Some ''unknown block'')),
                               Inl (Error (CodeNumber (- 32008)) (Some ''unknown block''))]\<rparr>)
          ''0xb2'' 1 5 5000) = Inr None
   \<and> length (filter isPoll (snd (snd (waitForTransaction testGateway
          (world0\<lparr>pending := [Inl (Error (CodeNumber (- 32008)) (Some ''unknown block'')),
                               Inl (Error (CodeNumber (- 32008)) (Some ''unknown block'')),
                               Inl (Error (CodeNumber (- 32008)) (Some ''unknown block'')),
                               Inl (Error (CodeNumber (- 32008)) (Some ''unknown block'')),
                               Inl (Error (CodeNumber (- 32008)) (Some ''unknown block''))]\<rparr>)
          ''0xb2'' 1 5 5000)))) = 5
   \<and> fst (waitForTransaction testGateway
          (world0\<lparr>pending := [Inl (Error (CodeNumber (- 32008)) (Some ''unknown block'')),
                               Inl (Error (CodeString ''TIMEOUT'') (Some ''timeout''))]\<rparr>)
          ''0xb2'' 1 5 5000) = Inr None
   \<and> length (filter isPoll (snd (snd (waitForTransaction testGateway
          (world0\<lparr>pending := [Inl (Error (CodeNumber (- 32008)) (Some ''unknown block'')),
                               Inl (Error (CodeString ''TIMEOUT'') (Some ''timeout''))]\<rparr>)
          ''0xb2'' 1 5 5000)))) = 2"
proof -
  let ?e1 = "Error (CodeNumber (- 32008)) (Some ''unknown block'')"
  let ?e2 = "Error CodeUndefined (Some ''eth_getTransactionReceipt unavailable'')"
  let ?e3 = "Error (CodeString ''TIMEOUT'') (Some ''timeout'')"
  let ?e4 = "Error (CodeNumber (- 32008)) None"
  let ?ok = "Inr (Some \<lparr>status = 1\<rparr>) :: js_error + receipt option"
  let ?wa = "world0\<lparr>pending := [Inl ?e1, Inl ?e2]\<rparr>"
  let ?wb = "world0\<lparr>pending := [Inl ?e1, Inl ?e1, Inl ?e1, Inl ?e1, Inl ?e1]\<rparr>"
  let ?wc = "world0\<lparr>pending := [Inl ?e1, Inl ?e3]\<rparr>"
  let ?wd = "world0\<lparr>pending := [Inl ?e4, Inl ?e3]\<rparr>"
  have r1: "isRetryable ?e1 = Inr True" and r2: "isRetryable ?e2 = Inr True"
    and r3: "isRetryable ?e3 = Inr False"
    by (simp_all add: isRetryable_def)
  have five: "(5::nat) = Suc (Suc (Suc (Suc (Suc 0))))" by simp
  obtain ra ca evsa where runa: "waitForTransaction testGateway ?wa ''0xb2'' 1 5 5000 = (ra, ca, evsa)"
    using prod_cases3 by blast
  have ansa: "provider_answers testGateway ?wa ''0xb2'' 1 5000 (Suc (length [?e1, ?e2])) =
                map Inl [?e1, ?e2] @ [Inr (Some \<lparr>status = 1\<rparr>)]"
    by (simp add: testGateway_def world0_def)
  have a: "ra = Inr (Some \<lparr>status = 1\<rparr>)"
    using waitForTransaction_bounded_retry [OF runa, THEN conjunct2, THEN conjunct2,
            THEN conjunct1, rule_format, of "[?e1, ?e2]" "\<lparr>status = 1\<rparr>"] ansa r1 r2
    by simp
  obtain rd cd evsd where rund: "waitForTransaction testGateway ?wd ''0xb2'' 1 5 5000 = (rd, cd, evsd)"
    using prod_cases3 by blast
  have ansd': "provider_answers testGateway ?wd ''0xb2'' 1 5000 (Suc (Suc (Suc (Suc (Suc 0))))) =
                 [Inl ?e4, Inl ?e3, ?ok, ?ok, ?ok]"
    by (simp add: testGateway_def world0_def)
  have ansd: "provider_answers testGateway ?wd ''0xb2'' 1 5000 5 =
                [Inl ?e4, Inl ?e3, ?ok, ?ok, ?ok]"
    by (subst five) (rule ansd')
  have d: "\<exists>ro. rd = Inr ro"
    using waitForTransaction_bounded_retry [OF rund, THEN conjunct2, THEN conjunct1] ansd
    by (simp add: readable_def)
  obtain rb cb evsb where runb: "waitForTransaction testGateway ?wb ''0xb2'' 1 5 5000 = (rb, cb, evsb)"
    using prod_cases3 by blast
  have ansb': "provider_answers testGateway ?wb ''0xb2'' 1 5000 (Suc (Suc (Suc (Suc (Suc 0))))) =
                 map Inl [?e1, ?e1, ?e1, ?e1, ?e1]"
    by (simp add: testGateway_def world0_def)
  have ansb: "provider_answers testGateway ?wb ''0xb2'' 1 5000 5 =
                map Inl [?e1, ?e1, ?e1, ?e1, ?e1]"
    by (subst five) (rule ansb')
  have b: "rb = Inr None \<and> length (filter isPoll evsb) = 5"
    using waitForTransaction_bounded_retry [OF runb, THEN conjunct2, THEN conjunct2,
            THEN conjunct2, THEN conjunct1, rule_format, of "[?e1, ?e1, ?e1, ?e1, ?e1]"] ansb r1
    by simp
  obtain rc cc evsc where runc: "waitForTransaction testGateway ?wc ''0xb2'' 1 5 5000 = (rc, cc, evsc)"
    using prod_cases3 by blast
  have ansc: "provider_answers testGateway ?wc ''0xb2'' 1 5000 (Suc (length [?e1])) =
                map Inl [?e1] @ [Inl ?e3]"
    by (simp add: testGateway_def world0_def)
  have c: "rc = Inr None \<and> length (filter isPoll evsc) = Suc (length [?e1])"
    using waitForTransaction_bounded_retry [OF runc, THEN conjunct2, THEN conjunct2,
            THEN conjunct2, THEN conjunct2, rule_format, of "[?e1]" ?e3] ansc r1 r3
    by simp
  from a b c d runa runb runc rund show ?thesis by simp
qed

text \<open>
  The claim as the spec words it fails where it says that \<open>waitForTransaction\<close> never
  throws and that any other exception yields \<open>null\<close>: when the provider rejects with
  an object that has the code -32000 and no message, the test in the \<open>catch\<close> block
  raises a \<open>TypeError\<close>, and that exception leaves the method after the first poll.
\<close>

theorem rejection_without_message_escapes:
  "waitForTransaction testGateway
      (world0\<lparr>pending := [Inl (Error (CodeNumber (- 32000)) None)]\<rparr>) ''0xb2'' 1 5 5000 =
     (Inl typeError, world0\<lparr>pending := []\<rparr>,
      [PollReceipt ''0xb2'' 1 60000 (Inl (Error (CodeNumber (- 32000)) None))])"
  by (simp add: waitForTransaction_def waitForTransaction_loop.simps pollOnce_def
        isRetryable_def testGateway_def world0_def)

subsection \<open>approveToken\<close>

text \<open>The events of a wait are polls and delays only.\<close>

lemma loop_events_poll:
  "list_all pollEvent (snd (snd
     (waitForTransaction_loop gw c txHash confirmations retries delay attempt)))"
proof (induction "Suc retries - attempt" arbitrary: c attempt rule: less_induct)
  case less
  show ?case
  proof (cases rule: loop_cases [where gw = gw and c = c and txHash = txHash
           and confirmations = confirmations and retries = retries and delay = delay
           and attempt = attempt])
    case past
    then show ?thesis by simp
  next
    case (received receipt c1 ev)
    with pollOnce_isPoll [OF received(2)] show ?thesis by simp
  next
    case (raised error c1 ev thrown)
    with pollOnce_isPoll [OF raised(2)] show ?thesis by simp
  next
    case (fatal error c1 ev)
    with pollOnce_isPoll [OF fatal(2)] show ?thesis by simp
  next
    case (exhausted error c1 ev)
    with pollOnce_isPoll [OF exhausted(2)] show ?thesis by simp
  next
    case (again error c1 ev)
    have "list_all pollEvent (snd (snd (waitForTransaction_loop gw (setTimeout gw c1 delay)
              txHash confirmations retries delay (Suc attempt))))"
      using again(1) by (intro less.hyps) simp
    with again pollOnce_isPoll [OF again(2)] show ?thesis
      by (auto split: prod.splits)
  qed
qed

lemma wait_events_poll:
  "waitForTransaction gw c txHash confirmations retries delay = (r, c', evs) \<Longrightarrow>
   list_all pollEvent evs"
  using loop_events_poll [of gw c txHash confirmations retries delay 1]
  by (simp add: waitForTransaction_def)

lemma pollEvent_no_approve: "list_all pollEvent evs \<Longrightarrow> filter isApproveTx evs = []"
  by (induction evs) (auto elim: pollEvent.elims)

lemma pollEvent_approvalEvent: "list_all pollEvent evs \<Longrightarrow> list_all approvalEvent evs"
  by (induction evs) (auto elim: pollEvent.elims)

text \<open>
  The four ways through \<open>approveToken\<close>. After a broadcast the result is \<open>true\<close>
  whatever \<open>waitForTransaction\<close> returns, and \<open>false\<close> only when an exception left it.
\<close>

lemma approveToken_read_error:
  assumes "allowance gw c tokenAddress (walletAddress cfg) spender = (Inl e, c1)"
  shows "approveToken gw cfg c tokenAddress spender amount =
           (False, c1, [ApproveTokenCall tokenAddress spender amount,
                        AllowanceRead tokenAddress (walletAddress cfg) spender (Inl e)])"
  using assms by (simp add: approveToken_def)

lemma approveToken_sufficient:
  assumes "allowance gw c tokenAddress (walletAddress cfg) spender = (Inr al, c1)"
    and "amount \<le> al"
  shows "approveToken gw cfg c tokenAddress spender amount =
           (True, c1, [ApproveTokenCall tokenAddress spender amount,
                       AllowanceRead tokenAddress (walletAddress cfg) spender (Inr al)])"
  using assms by (simp add: approveToken_def)

lemma approveToken_broadcast_error:
  assumes "allowance gw c tokenAddress (walletAddress cfg) spender = (Inr al, c1)"
    and "al < amount"
    and "approve gw c1 tokenAddress spender MaxUint256 = (Inl e, c2)"
  shows "approveToken gw cfg c tokenAddress spender amount =
           (False, c2, [ApproveTokenCall tokenAddress spender amount,
                        AllowanceRead tokenAddress (walletAddress cfg) spender (Inr al),
                        ApproveTx tokenAddress spender MaxUint256 (Inl e)])"
  using assms by (simp add: approveToken_def)

lemma approveToken_broadcast:
  assumes "allowance gw c tokenAddress (walletAddress cfg) spender = (Inr al, c1)"
    and "al < amount"
    and "approve gw c1 tokenAddress spender MaxUint256 = (Inr h, c2)"
    and "waitForTransaction gw c2 h 1 5 5000 = (r, c3, evs)"
  shows "approveToken gw cfg c tokenAddress spender amount =
           ((case r of Inl error \<Rightarrow> False | Inr ro \<Rightarrow> True), c3,
            [ApproveTokenCall tokenAddress spender amount,
             AllowanceRead tokenAddress (walletAddress cfg) spender (Inr al),
             ApproveTx tokenAddress spender MaxUint256 (Inr h)] @ evs)"
  using assms by (simp add: approveToken_def)

lemma approveToken_cases:
  obtains (read_error) e c1 where
      "allowance gw c tokenAddress (walletAddress cfg) spender = (Inl e, c1)"
  | (sufficient) al c1 where
      "allowance gw c tokenAddress (walletAddress cfg) spender = (Inr al, c1)" "amount \<le> al"
  | (broadcast_error) al c1 e c2 where
      "allowance gw c tokenAddress (walletAddress cfg) spender = (Inr al, c1)" "al < amount"
      "approve gw c1 tokenAddress spender MaxUint256 = (Inl e, c2)"
  | (broadcast) al c1 h c2 r c3 evs where
      "allowance gw c tokenAddress (walletAddress cfg) spender = (Inr al, c1)" "al < amount"
      "approve gw c1 tokenAddress spender MaxUint256 = (Inr h, c2)"
      "waitForTransaction gw c2 h 1 5 5000 = (r, c3, evs)"
proof -
  obtain rd c1 where rd: "allowance gw c tokenAddress (walletAddress cfg) spender = (rd, c1)"
    by (cases "allowance gw c tokenAddress (walletAddress cfg) spender") auto
  show ?thesis
  proof (cases rd)
    case (Inl e)
    with rd read_error show ?thesis by simp
  next
    case (Inr al)
    show ?thesis
    proof (cases "amount \<le> al")
      case True
      with rd Inr sufficient show ?thesis by simp
    next
      case False
      then have lt: "al < amount" by simp
      obtain tx c2 where tx: "approve gw c1 tokenAddress spender MaxUint256 = (tx, c2)"
        by (cases "approve gw c1 tokenAddress spender MaxUint256") auto
      show ?thesis
      proof (cases tx)
        case (Inl e)
        with rd Inr lt tx broadcast_error show ?thesis by simp
      next
        case h: (Inr h)
        obtain r c3 evs where "waitForTransaction gw c2 h 1 5 5000 = (r, c3, evs)"
          using prod_cases3 by blast
        with rd Inr lt tx h broadcast show ?thesis by simp
      qed
    qed
  qed
qed

lemma approveToken_events:
  assumes "approveToken gw cfg c tokenAddress spender amount = (ok, c', evs)"
  shows "list_all approvalEvent evs"
    and "length (filter isApproveTx evs) \<le> 1"
    and "\<exists>rd rest. evs = ApproveTokenCall tokenAddress spender amount #
            AllowanceRead tokenAddress (walletAddress cfg) spender rd # rest"
proof -
  show "list_all approvalEvent evs"
  proof (cases rule: approveToken_cases [where gw = gw and c = c and tokenAddress = tokenAddress and cfg = cfg
            and spender = spender and amount = amount])
    case (read_error e c1)
    with assms show ?thesis by (auto simp add: approveToken_read_error)
  next
    case (sufficient al c1)
    with assms show ?thesis by (auto simp add: approveToken_sufficient)
  next
    case (broadcast_error al c1 e c2)
    with assms show ?thesis by (auto simp add: approveToken_broadcast_error)
  next
    case (broadcast al c1 h c2 r c3 evs')
    with assms wait_events_poll [OF broadcast(4)] show ?thesis
      by (auto simp add: approveToken_broadcast [OF broadcast] pollEvent_approvalEvent)
  qed
  show "length (filter isApproveTx evs) \<le> 1"
  proof (cases rule: approveToken_cases [where gw = gw and c = c and tokenAddress = tokenAddress and cfg = cfg
            and spender = spender and amount = amount])
    case (read_error e c1)
    with assms show ?thesis by (auto simp add: approveToken_read_error)
  next
    case (sufficient al c1)
    with assms show ?thesis by (auto simp add: approveToken_sufficient)
  next
    case (broadcast_error al c1 e c2)
    with assms show ?thesis by (auto simp add: approveToken_broadcast_error)
  next
    case (broadcast al c1 h c2 r c3 evs')
    with assms wait_events_poll [OF broadcast(4)] show ?thesis
      by (auto simp add: approveToken_broadcast [OF broadcast] pollEvent_no_approve)
  qed
  show "\<exists>rd rest. evs = ApproveTokenCall tokenAddress spender amount #
            AllowanceRead tokenAddress (walletAddress cfg) spender rd # rest"
  proof (cases rule: approveToken_cases [where gw = gw and c = c and tokenAddress = tokenAddress and cfg = cfg
            and spender = spender and amount = amount])
    case (read_error e c1)
    with assms show ?thesis by (auto simp add: approveToken_read_error)
  next
    case (sufficient al c1)
    with assms show ?thesis by (auto simp add: approveToken_sufficient)
  next
    case (broadcast_error al c1 e c2)
    with assms show ?thesis by (auto simp add: approveToken_broadcast_error)
  next
    case (broadcast al c1 h c2 r c3 evs')
    with assms show ?thesis
      by (auto simp add: approveToken_broadcast [OF broadcast])
  qed
qed

text \<open>
  C2 (the code at the failing input). The allowance is 0, the required amount is
  positive, the approval is broadcast with hash \<open>0xa1\<close>, and the one receipt the chain
  returns for it has status 0: \<open>waitForTransaction\<close> returns \<open>null\<close>, the allowance is
  unchanged, and \<open>approveToken\<close> returns \<open>true\<close>.
\<close>

theorem approveToken_unconfirmed_returns_true:
  "waitForTransaction testGateway
      (world0\<lparr>pending := [Inr (Some \<lparr>status = 0\<rparr>)], approveTakesEffect := False\<rparr>)
      ''0xa1'' 1 5 5000 =
     (Inr None, world0\<lparr>pending := [], approveTakesEffect := False\<rparr>,
      [PollReceipt ''0xa1'' 1 60000 (Inr (Some \<lparr>status = 0\<rparr>))])
   \<and> approveToken testGateway testConfig
      (world0\<lparr>pending := [Inr (Some \<lparr>status = 0\<rparr>)], approveTakesEffect := False\<rparr>)
      ''0xed59'' ''0x1a4d'' 1000000000000000000 =
     (True, world0\<lparr>pending := [], approveTakesEffect := False\<rparr>,
      [ApproveTokenCall ''0xed59'' ''0x1a4d'' 1000000000000000000,
       AllowanceRead ''0xed59'' ''0x5e1f'' ''0x1a4d'' (Inr 0),
       ApproveTx ''0xed59'' ''0x1a4d'' MaxUint256 (Inr ''0xa1''),
       PollReceipt ''0xa1'' 1 60000 (Inr (Some \<lparr>status = 0\<rparr>))])"
  by (simp add: approveToken_def waitForTransaction_def waitForTransaction_loop.simps
        pollOnce_def isRetryable_def failedMessage_def testGateway_def testConfig_def
        world0_def)

text \<open>
  C7 (as the code has it). Each call submits at most one approval transaction, and
  none when the allowance it reads covers its required amount: so for the first of two
  calls in a row, and so for the second. When the first call finds the allowance
  sufficient, the read leaves the world as it was and the second amount is not larger
  than the first, neither call submits anything.
\<close>

theorem approveToken_twice:
  assumes "approveToken gw cfg c tokenAddress spender amount1 = (ok1, c1, evs1)"
    and "approveToken gw cfg c1 tokenAddress spender amount2 = (ok2, c2, evs2)"
  shows "length (filter isApproveTx evs1) \<le> 1 \<and> length (filter isApproveTx evs2) \<le> 1
    \<and> (\<forall>al. fst (allowance gw c1 tokenAddress (walletAddress cfg) spender) = Inr al
              \<and> amount2 \<le> al
          \<longrightarrow> filter isApproveTx evs2 = [] \<and> ok2)
    \<and> (\<forall>al. allowance gw c tokenAddress (walletAddress cfg) spender = (Inr al, c)
              \<and> amount1 \<le> al \<and> amount2 \<le> amount1
          \<longrightarrow> filter isApproveTx (evs1 @ evs2) = [] \<and> ok1 \<and> ok2)
    \<and> (\<forall>al. fst (allowance gw c tokenAddress (walletAddress cfg) spender) = Inr al
              \<and> amount1 \<le> al
          \<longrightarrow> filter isApproveTx evs1 = [] \<and> ok1)"
proof -
  have one: "length (filter isApproveTx evs1) \<le> 1" "length (filter isApproveTx evs2) \<le> 1"
    using approveToken_events(2) [OF assms(1)] approveToken_events(2) [OF assms(2)] by simp_all
  have second: "filter isApproveTx evs2 = [] \<and> ok2"
    if "fst (allowance gw c1 tokenAddress (walletAddress cfg) spender) = Inr al"
      and "amount2 \<le> al" for al
  proof -
    have "allowance gw c1 tokenAddress (walletAddress cfg) spender =
            (Inr al, snd (allowance gw c1 tokenAddress (walletAddress cfg) spender))"
      using that(1) by (simp add: prod_eq_iff)
    from approveToken_sufficient [OF this that(2)] assms(2) show ?thesis by auto
  qed
  have both: "filter isApproveTx (evs1 @ evs2) = [] \<and> ok1 \<and> ok2"
    if rd: "allowance gw c tokenAddress (walletAddress cfg) spender = (Inr al, c)"
      and le1: "amount1 \<le> al" and le2: "amount2 \<le> amount1" for al
  proof -
    from approveToken_sufficient [OF rd le1] assms(1)
    have first: "ok1" "c1 = c" "filter isApproveTx evs1 = []" by auto
    from le1 le2 have "amount2 \<le> al" by simp
    from approveToken_sufficient [OF rd this] assms(2) first(2)
    have "ok2" "filter isApproveTx evs2 = []" by auto
    with first show ?thesis by simp
  qed
  have first: "filter isApproveTx evs1 = [] \<and> ok1"
    if "fst (allowance gw c tokenAddress (walletAddress cfg) spender) = Inr al"
      and "amount1 \<le> al" for al
  proof -
    have "allowance gw c tokenAddress (walletAddress cfg) spender =
            (Inr al, snd (allowance gw c tokenAddress (walletAddress cfg) spender))"
      using that(1) by (simp add: prod_eq_iff)
    from approveToken_sufficient [OF this that(2)] assms(1) show ?thesis by auto
  qed
  from one second both first show ?thesis by blast
qed

theorem approveToken_twice_witness:
  "filter isApproveTx
     (snd (snd (approveToken testGateway testConfig (world0\<lparr>allowances := [(''0xed59'', 100)]\<rparr>)
                  ''0xed59'' ''0x1a4d'' 50)) @
      snd (snd (approveToken testGateway testConfig (world0\<lparr>allowances := [(''0xed59'', 100)]\<rparr>)
                  ''0xed59'' ''0x1a4d'' 30))) = []
   \<and> approveToken testGateway testConfig world0 ''0xed59'' ''0x1a4d'' 50 =
       (True, world0\<lparr>allowances := [(''0xed59'', MaxUint256)]\<rparr>,
        [ApproveTokenCall ''0xed59'' ''0x1a4d'' 50,
         AllowanceRead ''0xed59'' ''0x5e1f'' ''0x1a4d'' (Inr 0),
         ApproveTx ''0xed59'' ''0x1a4d'' MaxUint256 (Inr ''0xa1''),
         PollReceipt ''0xa1'' 1 60000 (Inr (Some \<lparr>status = 1\<rparr>))])
   \<and> filter isApproveTx
       (snd (snd (approveToken testGateway testConfig
                    (world0\<lparr>allowances := [(''0xed59'', MaxUint256)]\<rparr>)
                    ''0xed59'' ''0x1a4d'' 200))) = []"
proof -
  let ?w = "world0\<lparr>allowances := [(''0xed59'', 100)]\<rparr>"
  let ?w1 = "world0\<lparr>allowances := [(''0xed59'', MaxUint256)]\<rparr>"
  obtain ok1 c1 evs1 where a1:
    "approveToken testGateway testConfig ?w ''0xed59'' ''0x1a4d'' 50 = (ok1, c1, evs1)"
    using prod_cases3 by blast
  have rd: "allowance testGateway ?w ''0xed59'' (walletAddress testConfig) ''0x1a4d'' =
              (Inr 100, ?w)"
    by (simp add: testGateway_def world0_def)
  have c1: "c1 = ?w"
    using approveToken_sufficient [OF rd, of 50] a1 by simp
  obtain ok2 c2 evs2 where a2:
    "approveToken testGateway testConfig c1 ''0xed59'' ''0x1a4d'' 30 = (ok2, c2, evs2)"
    using prod_cases3 by blast
  have first: "filter isApproveTx (evs1 @ evs2) = []"
    using approveToken_twice [OF a1 a2, THEN conjunct2, THEN conjunct2, THEN conjunct2,
            THEN conjunct1, rule_format, of 100] rd
    by simp
  have b1: "approveToken testGateway testConfig world0 ''0xed59'' ''0x1a4d'' 50 =
       (True, ?w1,
        [ApproveTokenCall ''0xed59'' ''0x1a4d'' 50,
         AllowanceRead ''0xed59'' ''0x5e1f'' ''0x1a4d'' (Inr 0),
         ApproveTx ''0xed59'' ''0x1a4d'' MaxUint256 (Inr ''0xa1''),
         PollReceipt ''0xa1'' 1 60000 (Inr (Some \<lparr>status = 1\<rparr>))])"
    by (simp add: approveToken_def waitForTransaction_def waitForTransaction_loop.simps
          pollOnce_def testGateway_def testConfig_def world0_def)
  obtain ok3 c3 evs3 where b2:
    "approveToken testGateway testConfig ?w1 ''0xed59'' ''0x1a4d'' 200 = (ok3, c3, evs3)"
    using prod_cases3 by blast
  have rd1: "fst (allowance testGateway ?w1 ''0xed59'' (walletAddress testConfig) ''0x1a4d'') =
               Inr MaxUint256"
    by (simp add: testGateway_def world0_def)
  have second: "filter isApproveTx evs3 = []"
    using approveToken_twice [OF b1 b2, THEN conjunct2, THEN conjunct2, THEN conjunct1,
            rule_format, of MaxUint256] rd1
    by (simp add: MaxUint256_def)
  from first second a1 a2 c1 b1 b2 show ?thesis by simp
qed

text \<open>
  The claim as the spec words it fails twice over. With an allowance of 100, a first
  call for 50 finds it sufficient and a second call for 200 (not smaller) submits an
  approval. And on a chain where the approval is broadcast but never confirmed and
  never takes effect, two calls for the same amount submit two approvals.
\<close>

theorem approveToken_twice_counterexample:
  "approveToken testGateway testConfig (world0\<lparr>allowances := [(''0xed59'', 100)]\<rparr>)
      ''0xed59'' ''0x1a4d'' 50 =
     (True, world0\<lparr>allowances := [(''0xed59'', 100)]\<rparr>,
      [ApproveTokenCall ''0xed59'' ''0x1a4d'' 50,
       AllowanceRead ''0xed59'' ''0x5e1f'' ''0x1a4d'' (Inr 100)])
   \<and> approveToken testGateway testConfig (world0\<lparr>allowances := [(''0xed59'', 100)]\<rparr>)
      ''0xed59'' ''0x1a4d'' 200 =
     (True, world0\<lparr>allowances := [(''0xed59'', MaxUint256), (''0xed59'', 100)]\<rparr>,
      [ApproveTokenCall ''0xed59'' ''0x1a4d'' 200,
       AllowanceRead ''0xed59'' ''0x5e1f'' ''0x1a4d'' (Inr 100),
       ApproveTx ''0xed59'' ''0x1a4d'' MaxUint256 (Inr ''0xa1''),
       PollReceipt ''0xa1'' 1 60000 (Inr (Some \<lparr>status = 1\<rparr>))])
   \<and> approveToken testGateway testConfig
      (world0\<lparr>pending := [Inl (Error (CodeString ''TIMEOUT'') (Some ''timeout'')),
                           Inl (Error (CodeString ''TIMEOUT'') (Some ''timeout''))],
              approveTakesEffect := False\<rparr>)
      ''0xed59'' ''0x1a4d'' 50 =
     (True,
      world0\<lparr>pending := [Inl (Error (CodeString ''TIMEOUT'') (Some ''timeout''))],
             approveTakesEffect := False\<rparr>,
      [ApproveTokenCall ''0xed59'' ''0x1a4d'' 50,
       AllowanceRead ''0xed59'' ''0x5e1f'' ''0x1a4d'' (Inr 0),
       ApproveTx ''0xed59'' ''0x1a4d'' MaxUint256 (Inr ''0xa1''),
       PollReceipt ''0xa1'' 1 60000 (Inl (Error (CodeString ''TIMEOUT'') (Some ''timeout'')))])
   \<and> approveToken testGateway testConfig
      (world0\<lparr>pending := [Inl (Error (CodeString ''TIMEOUT'') (Some ''timeout''))],
              approveTakesEffect := False\<rparr>)
      ''0xed59'' ''0x1a4d'' 50 =
     (True, world0\<lparr>pending := [], approveTakesEffect := False\<rparr>,
      [ApproveTokenCall ''0xed59'' ''0x1a4d'' 50,
       AllowanceRead ''0xed59'' ''0x5e1f'' ''0x1a4d'' (Inr 0),
       ApproveTx ''0xed59'' ''0x1a4d'' MaxUint256 (Inr ''0xa1''),
       PollReceipt ''0xa1'' 1 60000 (Inl (Error (CodeString ''TIMEOUT'') (Some ''timeout'')))])"
  by (simp add: approveToken_def waitForTransaction_def waitForTransaction_loop.simps
        pollOnce_def isRetryable_def testGateway_def testConfig_def world0_def MaxUint256_def)

subsection \<open>addLiquidity: the ways through\<close>

lemma loop_some:
  "waitForTransaction_loop gw c txHash confirmations retries delay attempt =
     (Inr (Some rc), c', evs)
   \<Longrightarrow> status rc = 1 \<and>
       (\<exists>init. evs = init @ [PollReceipt txHash confirmations 60000 (Inr (Some rc))])"
proof (induction "Suc retries - attempt" arbitrary: c attempt c' evs rule: less_induct)
  case less
  note run = less.prems
  show ?case
  proof (cases rule: loop_cases [where gw = gw and c = c and txHash = txHash
           and confirmations = confirmations and retries = retries and delay = delay
           and attempt = attempt])
    case past
    with run show ?thesis by simp
  next
    case (received receipt c1 ev)
    with run have eq: "receipt = rc" "evs = [ev]" by simp_all
    from pollOnce_received [OF received(2)] eq(1)
    have "status rc = 1 \<and> ev = PollReceipt txHash confirmations 60000 (Inr (Some rc))"
      by simp
    with eq(2) show ?thesis by simp
  next
    case (raised error c1 ev thrown)
    with run show ?thesis by simp
  next
    case (fatal error c1 ev)
    with run show ?thesis by simp
  next
    case (exhausted error c1 ev)
    with run show ?thesis by simp
  next
    case (again error c1 ev)
    obtain r2 c2 evs2 where rec: "waitForTransaction_loop gw (setTimeout gw c1 delay)
        txHash confirmations retries delay (Suc attempt) = (r2, c2, evs2)"
      using prod_cases3 by blast
    with run again(4) have eq: "r2 = Inr (Some rc)" "evs = ev # Delay delay # evs2"
      by simp_all
    have "status rc = 1 \<and>
       (\<exists>init. evs2 = init @ [PollReceipt txHash confirmations 60000 (Inr (Some rc))])"
      using again(1) rec [unfolded eq(1)] by (intro less.hyps) simp_all
    with eq(2) show ?thesis by auto
  qed
qed

lemma loop_failed_poll_none:
  assumes "waitForTransaction_loop gw c txHash confirmations retries delay attempt = (r, c', evs)"
    and "PollReceipt h n t (Inr (Some rc)) \<in> set evs"
    and "status rc \<noteq> 1"
    and "\<not> str_includes txHash ''eth_getTransactionReceipt''"
  shows "r = Inr None"
  using assms(1,2)
proof (induction "Suc retries - attempt" arbitrary: c attempt r c' evs rule: less_induct)
  case less
  note run = less.prems(1) and mem = less.prems(2)
  have failed: "error = Error CodeUndefined (Some (failedMessage txHash))"
    if "pollOnce gw c txHash confirmations = (Inl error, c1, ev)"
      and "ev = PollReceipt h n t (Inr (Some rc))" for error c1 ev
    using pollOnce_failed [of gw c txHash confirmations error c1 h n t "Some rc"] that
    by simp
  show ?case
  proof (cases rule: loop_cases [where gw = gw and c = c and txHash = txHash
           and confirmations = confirmations and retries = retries and delay = delay
           and attempt = attempt])
    case past
    with run mem show ?thesis by simp
  next
    case (received receipt c1 ev)
    with run have evs: "evs = [ev]" by simp
    from pollOnce_received [OF received(2)] evs mem assms(3) show ?thesis
      by auto
  next
    case (raised error c1 ev thrown)
    with run mem have "ev = PollReceipt h n t (Inr (Some rc))" by auto
    from failed [OF raised(2) this] raised(3) show ?thesis
      by (simp add: failed_error_test)
  next
    case (fatal error c1 ev)
    with run show ?thesis by simp
  next
    case (exhausted error c1 ev)
    with run show ?thesis by simp
  next
    case (again error c1 ev)
    obtain r2 c2 evs2 where rec: "waitForTransaction_loop gw (setTimeout gw c1 delay)
        txHash confirmations retries delay (Suc attempt) = (r2, c2, evs2)"
      using prod_cases3 by blast
    with run again(4) have eq: "r = r2" "evs = ev # Delay delay # evs2"
      by simp_all
    have "ev \<noteq> PollReceipt h n t (Inr (Some rc))"
    proof
      assume "ev = PollReceipt h n t (Inr (Some rc))"
      from failed [OF again(2) this] again(3) assms(4) show False
        by (simp add: failed_error_test)
    qed
    with mem eq(2) have mem2: "PollReceipt h n t (Inr (Some rc)) \<in> set evs2" by auto
    have "r2 = Inr None"
      using again(1) rec mem2 by (intro less.hyps) simp_all
    with eq(1) show ?thesis by simp
  qed
qed

lemma sendLiquidity_cases:
  obtains (send_failed) est c1 e c2 where
      "estimateGas gw c txp = (est, c1)"
      "sendTransaction gw c1
         (txp\<lparr>tx_gasLimit := (case est of Inl e \<Rightarrow> 500000 | Inr g \<Rightarrow> g) * 12 div 10\<rparr>) =
         (Inl e, c2)"
      "sendLiquidity gw c txp =
         (None, c2,
          [EstimateGas txp est,
           SendTransaction
             (txp\<lparr>tx_gasLimit := (case est of Inl e \<Rightarrow> 500000 | Inr g \<Rightarrow> g) * 12 div 10\<rparr>)
             (Inl e)])"
  | (sent) est c1 h c2 rw c3 wevs where
      "estimateGas gw c txp = (est, c1)"
      "sendTransaction gw c1
         (txp\<lparr>tx_gasLimit := (case est of Inl e \<Rightarrow> 500000 | Inr g \<Rightarrow> g) * 12 div 10\<rparr>) =
         (Inr h, c2)"
      "waitForTransaction gw c2 h 1 5 5000 = (rw, c3, wevs)"
      "sendLiquidity gw c txp =
         ((case rw of Inr (Some receipt) \<Rightarrow> Some h | Inr None \<Rightarrow> None | Inl error \<Rightarrow> None),
          c3,
          [EstimateGas txp est,
           SendTransaction
             (txp\<lparr>tx_gasLimit := (case est of Inl e \<Rightarrow> 500000 | Inr g \<Rightarrow> g) * 12 div 10\<rparr>)
             (Inr h)] @ wevs)"
proof -
  obtain est c1 where est: "estimateGas gw c txp = (est, c1)"
    by (cases "estimateGas gw c txp") auto
  let ?txp1 = "txp\<lparr>tx_gasLimit := (case est of Inl e \<Rightarrow> 500000 | Inr g \<Rightarrow> g) * 12 div 10\<rparr>"
  obtain tx c2 where tx: "sendTransaction gw c1 ?txp1 = (tx, c2)"
    by (cases "sendTransaction gw c1 ?txp1") auto
  show ?thesis
  proof (cases tx)
    case (Inl e)
    with est tx show ?thesis
      by (intro send_failed [of est c1 e c2]) (simp_all add: sendLiquidity_def)
  next
    case (Inr h)
    obtain rw c3 wevs where w: "waitForTransaction gw c2 h 1 5 5000 = (rw, c3, wevs)"
      using prod_cases3 by blast
    with est tx Inr show ?thesis
      by (intro sent [of est c1 h c2 rw c3 wevs])
         (simp_all add: sendLiquidity_def split: sum.splits option.splits)
  qed
qed

lemma mintLiquidity_cases:
  obtains (mint_failed) e where
      "mintLiquidity gw cfg c t0 t1 a0 a1 = (None, c, [Encode (Mint (mintParams gw cfg c t0 t1 a0 a1)) (Inl e)])"
  | (refund_failed) m e where
      "mintLiquidity gw cfg c t0 t1 a0 a1 =
         (None, c, [Encode (Mint (mintParams gw cfg c t0 t1 a0 a1)) (Inr m), Encode RefundETH (Inl e)])"
  | (multicall_failed) m rf e where
      "mintLiquidity gw cfg c t0 t1 a0 a1 =
         (None, c, [Encode (Mint (mintParams gw cfg c t0 t1 a0 a1)) (Inr m), Encode RefundETH (Inr rf),
                    Encode (Multicall [m, rf]) (Inl e)])"
  | (encoded) m rf d r c' evsS where
      "sendLiquidity gw c
         \<lparr>tx_to = ROUTER (contract cfg), tx_data = d,
          tx_value = (if t0 = WPHRS (contract cfg) then a0
                      else if t1 = WPHRS (contract cfg) then a1 else 0),
          tx_gasLimit = 500000\<rparr> = (r, c', evsS)"
      "mintLiquidity gw cfg c t0 t1 a0 a1 =
         (r, c', [Encode (Mint (mintParams gw cfg c t0 t1 a0 a1)) (Inr m), Encode RefundETH (Inr rf),
                  Encode (Multicall [m, rf]) (Inr d)] @ evsS)"
proof (cases "encodeFunctionData cfg (Mint (mintParams gw cfg c t0 t1 a0 a1))")
  case (Inl e)
  then show ?thesis
    by (intro mint_failed [of e]) (simp add: mintLiquidity_def)
next
  case m: (Inr m)
  show ?thesis
  proof (cases "encodeFunctionData cfg RefundETH")
    case (Inl e)
    with m show ?thesis
      by (intro refund_failed [of m e]) (simp add: mintLiquidity_def)
  next
    case rf: (Inr rf)
    show ?thesis
    proof (cases "encodeFunctionData cfg (Multicall [m, rf])")
      case (Inl e)
      with m rf show ?thesis
        by (intro multicall_failed [of m rf e]) (simp add: mintLiquidity_def)
    next
      case d: (Inr d)
      let ?txp = "\<lparr>tx_to = ROUTER (contract cfg), tx_data = d,
          tx_value = (if t0 = WPHRS (contract cfg) then a0
                      else if t1 = WPHRS (contract cfg) then a1 else 0),
          tx_gasLimit = 500000\<rparr>"
      obtain r c' evsS where s: "sendLiquidity gw c ?txp = (r, c', evsS)"
        using prod_cases3 by blast
      with m rf d show ?thesis
        by (intro encoded [of d r c' evsS m rf]) (simp_all add: mintLiquidity_def)
    qed
  qed
qed

lemma addLiquidity_cases:
  obtains (rejected)
      "addLiquidity gw cfg c tokenA tokenB amountA amountB = (None, c, [])"
  | (unapproved) a b a0 a1 okA c1 evsA okB c2 evsB where
      "tokenMap cfg (toUpperCase tokenA) = Some a" "tokenMap cfg (toUpperCase tokenB) = Some b"
      "desired0 a b amountA amountB = Inr a0" "desired1 a b amountA amountB = Inr a1"
      "approveToken gw cfg c a (ROUTER (contract cfg)) a0 = (okA, c1, evsA)"
      "approveToken gw cfg c1 b (ROUTER (contract cfg)) a1 = (okB, c2, evsB)"
      "\<not> (okA \<and> okB)"
      "addLiquidity gw cfg c tokenA tokenB amountA amountB = (None, c2, evsA @ evsB)"
  | (approved) a b a0 a1 c1 evsA c2 evsB r c3 evsM where
      "tokenMap cfg (toUpperCase tokenA) = Some a" "tokenMap cfg (toUpperCase tokenB) = Some b"
      "desired0 a b amountA amountB = Inr a0" "desired1 a b amountA amountB = Inr a1"
      "approveToken gw cfg c a (ROUTER (contract cfg)) a0 = (True, c1, evsA)"
      "approveToken gw cfg c1 b (ROUTER (contract cfg)) a1 = (True, c2, evsB)"
      "mintLiquidity gw cfg c2 (order_token0 a b) (order_token1 a b) a0 a1 = (r, c3, evsM)"
      "addLiquidity gw cfg c tokenA tokenB amountA amountB = (r, c3, evsA @ evsB @ evsM)"
proof (cases "falsy (tokenMap cfg (toUpperCase tokenA)) \<or> falsy (tokenMap cfg (toUpperCase tokenB))")
  case True
  then show ?thesis by (intro rejected) (simp add: addLiquidity_def Let_def)
next
  case False
  then obtain a b where a: "tokenMap cfg (toUpperCase tokenA) = Some a"
    and b: "tokenMap cfg (toUpperCase tokenB) = Some b"
    by (auto simp: falsy_def split: option.splits)
  show ?thesis
  proof (cases "desired0 a b amountA amountB")
    case (Inl e)
    with False a b show ?thesis by (intro rejected) (simp add: addLiquidity_def Let_def)
  next
    case a0: (Inr a0)
    show ?thesis
    proof (cases "desired1 a b amountA amountB")
      case (Inl e)
      with False a b a0 show ?thesis by (intro rejected) (simp add: addLiquidity_def Let_def)
    next
      case a1: (Inr a1)
      obtain okA c1 evsA where A: "approveToken gw cfg c a (ROUTER (contract cfg)) a0 = (okA, c1, evsA)"
        using prod_cases3 by blast
      obtain okB c2 evsB where B: "approveToken gw cfg c1 b (ROUTER (contract cfg)) a1 = (okB, c2, evsB)"
        using prod_cases3 by blast
      show ?thesis
      proof (cases "okA \<and> okB")
        case no: False
        with False a b a0 a1 A B show ?thesis
          by (intro unapproved [of a b a0 a1 okA c1 evsA okB c2 evsB])
             (auto simp add: addLiquidity_def Let_def)
      next
        case True
        obtain r c3 evsM where M:
          "mintLiquidity gw cfg c2 (order_token0 a b) (order_token1 a b) a0 a1 = (r, c3, evsM)"
          using prod_cases3 by blast
        with True False a b a0 a1 A B show ?thesis
          by (intro approved [of a b a0 a1 c1 evsA c2 evsB r c3 evsM])
             (auto simp add: addLiquidity_def Let_def)
      qed
    qed
  qed
qed

subsection \<open>addLiquidity: the result\<close>

lemma approvalEvent_not_send: "list_all approvalEvent evs \<Longrightarrow> list_all (\<lambda>e. \<not> isSend e) evs"
  by (induction evs) (auto elim: isSend.elims)

lemma pollEvent_not_send: "list_all pollEvent evs \<Longrightarrow> list_all (\<lambda>e. \<not> isSend e) evs"
  by (induction evs) (auto elim: isSend.elims)

lemma split_at_send:
  assumes "list_all (\<lambda>e. \<not> isSend e) pre1" and "list_all (\<lambda>e. \<not> isSend e) post1"
    and "pre1 @ SendTransaction t1 r1 # post1 = pre2 @ SendTransaction t2 r2 # post2"
  shows "t2 = t1 \<and> r2 = r1 \<and> post2 = post1"
  using assms
proof (induction pre1 arbitrary: pre2)
  case Nil
  show ?case
  proof (cases pre2)
    case Nil
    with Nil.prems show ?thesis by simp
  next
    case (Cons x xs)
    with Nil.prems have "post1 = xs @ SendTransaction t2 r2 # post2" by simp
    with Nil.prems(2) show ?thesis by simp
  qed
next
  case (Cons y ys)
  show ?case
  proof (cases pre2)
    case Nil
    with Cons.prems show ?thesis by auto
  next
    case c: (Cons x xs)
    with Cons.prems have "ys @ SendTransaction t1 r1 # post1 = xs @ SendTransaction t2 r2 # post2"
      and "list_all (\<lambda>e. \<not> isSend e) ys"
      by simp_all
    from Cons.IH [OF this(2) Cons.prems(2) this(1)] show ?thesis .
  qed
qed

lemma sendLiquidity_some:
  assumes "sendLiquidity gw c txp = (Some h, c', evs)"
  shows "\<exists>est txp1 c2 rc wevs.
           evs = EstimateGas txp est # SendTransaction txp1 (Inr h) # wevs \<and>
           waitForTransaction gw c2 h 1 5 5000 = (Inr (Some rc), c', wevs)"
proof (cases rule: sendLiquidity_cases [where gw = gw and c = c and txp = txp])
  case (send_failed est c1 e c2)
  with assms show ?thesis by simp
next
  case (sent est c1 h' c2 rw c3 wevs)
  with assms obtain rc where "rw = Inr (Some rc)" "h' = h" "c3 = c'"
    and "evs = EstimateGas txp est #
           SendTransaction
             (txp\<lparr>tx_gasLimit := (case est of Inl e \<Rightarrow> 500000 | Inr g \<Rightarrow> g) * 12 div 10\<rparr>)
             (Inr h) # wevs"
    by (auto split: sum.splits option.splits)
  with sent(3) show ?thesis by blast
qed

lemma mintLiquidity_some:
  assumes "mintLiquidity gw cfg c t0 t1 a0 a1 = (Some h, c', evs)"
  shows "\<exists>pre txp1 c2 rc wevs.
           evs = pre @ SendTransaction txp1 (Inr h) # wevs \<and>
           list_all (\<lambda>e. \<not> isSend e) pre \<and>
           waitForTransaction gw c2 h 1 5 5000 = (Inr (Some rc), c', wevs)"
proof (cases rule: mintLiquidity_cases [where gw = gw and cfg = cfg and c = c and ?t0.0 = t0
         and ?t1.0 = t1 and ?a0.0 = a0 and ?a1.0 = a1])
  case (mint_failed e)
  with assms show ?thesis by simp
next
  case (refund_failed m e)
  with assms show ?thesis by simp
next
  case (multicall_failed m rf e)
  with assms show ?thesis by simp
next
  case (encoded m rf d r c2 evsS)
  with assms have s: "sendLiquidity gw c
         \<lparr>tx_to = ROUTER (contract cfg), tx_data = d,
          tx_value = (if t0 = WPHRS (contract cfg) then a0
                      else if t1 = WPHRS (contract cfg) then a1 else 0),
          tx_gasLimit = 500000\<rparr> = (Some h, c', evsS)"
    and evs: "evs = [Encode (Mint (mintParams gw cfg c t0 t1 a0 a1)) (Inr m),
                     Encode RefundETH (Inr rf), Encode (Multicall [m, rf]) (Inr d)] @ evsS"
    by simp_all
  from sendLiquidity_some [OF s] obtain est txp1 c2' rc wevs where
    e: "evsS = EstimateGas \<lparr>tx_to = ROUTER (contract cfg), tx_data = d,
          tx_value = (if t0 = WPHRS (contract cfg) then a0
                      else if t1 = WPHRS (contract cfg) then a1 else 0),
          tx_gasLimit = 500000\<rparr> est # SendTransaction txp1 (Inr h) # wevs"
    and w: "waitForTransaction gw c2' h 1 5 5000 = (Inr (Some rc), c', wevs)"
    by blast
  let ?pre = "[Encode (Mint (mintParams gw cfg c t0 t1 a0 a1)) (Inr m),
               Encode RefundETH (Inr rf), Encode (Multicall [m, rf]) (Inr d),
               EstimateGas \<lparr>tx_to = ROUTER (contract cfg), tx_data = d,
                 tx_value = (if t0 = WPHRS (contract cfg) then a0
                             else if t1 = WPHRS (contract cfg) then a1 else 0),
                 tx_gasLimit = 500000\<rparr> est]"
  have "evs = ?pre @ SendTransaction txp1 (Inr h) # wevs" using evs e by simp
  moreover have "list_all (\<lambda>e. \<not> isSend e) ?pre" by simp
  ultimately show ?thesis using w by blast
qed

lemma addLiquidity_some:
  assumes "addLiquidity gw cfg c tokenA tokenB amountA amountB = (Some h, c', evs)"
  shows "\<exists>pre txp1 c2 rc wevs.
           evs = pre @ SendTransaction txp1 (Inr h) # wevs \<and>
           list_all (\<lambda>e. \<not> isSend e) pre \<and>
           waitForTransaction gw c2 h 1 5 5000 = (Inr (Some rc), c', wevs)"
proof (cases rule: addLiquidity_cases [where gw = gw and cfg = cfg and c = c and tokenA = tokenA
         and tokenB = tokenB and amountA = amountA and amountB = amountB])
  case rejected
  with assms show ?thesis by simp
next
  case (unapproved a b a0 a1 okA c1 evsA okB c2 evsB)
  with assms show ?thesis by simp
next
  case (approved a b a0 a1 c1 evsA c2 evsB r c3 evsM)
  with assms have m: "mintLiquidity gw cfg c2 (order_token0 a b) (order_token1 a b) a0 a1 =
                        (Some h, c', evsM)"
    and evs: "evs = evsA @ evsB @ evsM"
    by simp_all
  from mintLiquidity_some [OF m] obtain pre txp1 c4 rc wevs where
    e: "evsM = pre @ SendTransaction txp1 (Inr h) # wevs"
    and p: "list_all (\<lambda>e. \<not> isSend e) pre"
    and w: "waitForTransaction gw c4 h 1 5 5000 = (Inr (Some rc), c', wevs)"
    by blast
  have "list_all (\<lambda>e. \<not> isSend e) evsA" "list_all (\<lambda>e. \<not> isSend e) evsB"
    using approveToken_events(1) [OF approved(5)] approveToken_events(1) [OF approved(6)]
    by (simp_all add: approvalEvent_not_send)
  with p have "list_all (\<lambda>e. \<not> isSend e) (evsA @ evsB @ pre)" by simp
  moreover have "evs = (evsA @ evsB @ pre) @ SendTransaction txp1 (Inr h) # wevs"
    using evs e by simp
  ultimately show ?thesis using w by blast
qed

subsection \<open>Concrete runs\<close>

lemma toUpperCase_examples:
  "toUpperCase ''PHRS'' = ''PHRS''" "toUpperCase ''USDT'' = ''USDT''"
  "toUpperCase ''usdt'' = ''USDT''" "toUpperCase ''Usdt'' = ''USDT''"
  "toUpperCase ''USDC'' = ''USDC''" "toUpperCase ''DOGE'' = ''DOGE''"
  by code_simp+

lemma parseEther_examples:
  "parseEther ''1.5'' = Inr 1500000000000000000"
  "parseEther ''3.0'' = Inr 3000000000000000000"
  "parseEther ''3'' = Inr 3000000000000000000"
  "parseEther ''1'' = Inr 1000000000000000000"
  by (simp_all add: parseEther_def isDigit_def digitsVal_def digitVal_def Let_def)

lemmas run_defs = approveToken_def waitForTransaction_def waitForTransaction_loop.simps
  pollOnce_def isRetryable_def failedMessage_def mintLiquidity_def mintParams_def
  sendLiquidity_def testGateway_def testConfig_def world0_def MaxUint256_def

lemma run_phrs_usdt:
  "addLiquidity testGateway testConfig world0 ''PHRS'' ''USDT'' ''1.5'' ''3.0'' =
     (Some ''0xb2'',
      world0\<lparr>allowances := [(''0xed59'', MaxUint256), (''0x76aa'', MaxUint256)]\<rparr>,
      [ApproveTokenCall ''0x76aa'' ''0x1a4d'' 1500000000000000000,
       AllowanceRead ''0x76aa'' ''0x5e1f'' ''0x1a4d'' (Inr 0),
       ApproveTx ''0x76aa'' ''0x1a4d'' MaxUint256 (Inr ''0xa1''),
       PollReceipt ''0xa1'' 1 60000 (Inr (Some \<lparr>status = 1\<rparr>)),
       ApproveTokenCall ''0xed59'' ''0x1a4d'' 3000000000000000000,
       AllowanceRead ''0xed59'' ''0x5e1f'' ''0x1a4d'' (Inr 0),
       ApproveTx ''0xed59'' ''0x1a4d'' MaxUint256 (Inr ''0xa1''),
       PollReceipt ''0xa1'' 1 60000 (Inr (Some \<lparr>status = 1\<rparr>)),
       Encode (Mint \<lparr>token0 = ''0x76aa'', token1 = ''0xed59'', fee = 500,
                     tickLower = - 887220, tickUpper = 887220,
                     amount0Desired = 1500000000000000000,
                     amount1Desired = 3000000000000000000,
                     amount0Min = 0, amount1Min = 0, recipient = ''0x5e1f'',
                     deadline = 1700001800\<rparr>) (Inr ''0x88316456''),
       Encode RefundETH (Inr ''0x12210e8a''),
       Encode (Multicall [''0x88316456'', ''0x12210e8a''])
         (Inr ''0xac9650d80x883164560x12210e8a''),
       EstimateGas \<lparr>tx_to = ''0x1a4d'', tx_data = ''0xac9650d80x883164560x12210e8a'',
                    tx_value = 1500000000000000000, tx_gasLimit = 500000\<rparr> (Inr 100000),
       SendTransaction \<lparr>tx_to = ''0x1a4d'', tx_data = ''0xac9650d80x883164560x12210e8a'',
                        tx_value = 1500000000000000000, tx_gasLimit = 120000\<rparr>
         (Inr ''0xb2''),
       PollReceipt ''0xb2'' 1 60000 (Inr (Some \<lparr>status = 1\<rparr>))])"
  apply (simp add: addLiquidity_def toUpperCase_examples tokenMap_def falsy_def desired0_def
           desired1_def order_token0_def order_token1_def parseEther_examples testConfig_def)
  apply (simp add: run_defs)
  apply (simp add: order_token0_def order_token1_def Let_def)
  done

lemma run_reverted:
  "addLiquidity testGateway testConfig
      (world0\<lparr>allowances := [(''0x76aa'', MaxUint256), (''0xed59'', MaxUint256)],
              pending := [Inr (Some \<lparr>status = 0\<rparr>)]\<rparr>)
      ''PHRS'' ''USDT'' ''1.5'' ''3.0'' =
     (None,
      world0\<lparr>allowances := [(''0x76aa'', MaxUint256), (''0xed59'', MaxUint256)]\<rparr>,
      [ApproveTokenCall ''0x76aa'' ''0x1a4d'' 1500000000000000000,
       AllowanceRead ''0x76aa'' ''0x5e1f'' ''0x1a4d'' (Inr MaxUint256),
       ApproveTokenCall ''0xed59'' ''0x1a4d'' 3000000000000000000,
       AllowanceRead ''0xed59'' ''0x5e1f'' ''0x1a4d'' (Inr MaxUint256),
       Encode (Mint \<lparr>token0 = ''0x76aa'', token1 = ''0xed59'', fee = 500,
                     tickLower = - 887220, tickUpper = 887220,
                     amount0Desired = 1500000000000000000,
                     amount1Desired = 3000000000000000000,
                     amount0Min = 0, amount1Min = 0, recipient = ''0x5e1f'',
                     deadline = 1700001800\<rparr>) (Inr ''0x88316456''),
       Encode RefundETH (Inr ''0x12210e8a''),
       Encode (Multicall [''0x88316456'', ''0x12210e8a''])
         (Inr ''0xac9650d80x883164560x12210e8a''),
       EstimateGas \<lparr>tx_to = ''0x1a4d'', tx_data = ''0xac9650d80x883164560x12210e8a'',
                    tx_value = 1500000000000000000, tx_gasLimit = 500000\<rparr> (Inr 100000),
       SendTransaction \<lparr>tx_to = ''0x1a4d'', tx_data = ''0xac9650d80x883164560x12210e8a'',
                        tx_value = 1500000000000000000, tx_gasLimit = 120000\<rparr>
         (Inr ''0xb2''),
       PollReceipt ''0xb2'' 1 60000 (Inr (Some \<lparr>status = 0\<rparr>))])"
  apply (simp add: addLiquidity_def toUpperCase_examples tokenMap_def falsy_def desired0_def
           desired1_def order_token0_def order_token1_def parseEther_examples testConfig_def)
  apply (simp add: run_defs)
  apply (simp add: order_token0_def order_token1_def Let_def)
  done

lemma run_no_estimate:
  "addLiquidity testGateway testConfig
      (world0\<lparr>allowances := [(''0x76aa'', MaxUint256), (''0xed59'', MaxUint256)],
              gasAnswer := Inl (Error (CodeString ''CALL_EXCEPTION'') (Some ''execution reverted''))\<rparr>)
      ''PHRS'' ''USDT'' ''1.5'' ''3.0'' =
     (Some ''0xb2'',
      world0\<lparr>allowances := [(''0x76aa'', MaxUint256), (''0xed59'', MaxUint256)],
             gasAnswer := Inl (Error (CodeString ''CALL_EXCEPTION'') (Some ''execution reverted''))\<rparr>,
      [ApproveTokenCall ''0x76aa'' ''0x1a4d'' 1500000000000000000,
       AllowanceRead ''0x76aa'' ''0x5e1f'' ''0x1a4d'' (Inr MaxUint256),
       ApproveTokenCall ''0xed59'' ''0x1a4d'' 3000000000000000000,
       AllowanceRead ''0xed59'' ''0x5e1f'' ''0x1a4d'' (Inr MaxUint256),
       Encode (Mint \<lparr>token0 = ''0x76aa'', token1 = ''0xed59'', fee = 500,
                     tickLower = - 887220, tickUpper = 887220,
                     amount0Desired = 1500000000000000000,
                     amount1Desired = 3000000000000000000,
                     amount0Min = 0, amount1Min = 0, recipient = ''0x5e1f'',
                     deadline = 1700001800\<rparr>) (Inr ''0x88316456''),
       Encode RefundETH (Inr ''0x12210e8a''),
       Encode (Multicall [''0x88316456'', ''0x12210e8a''])
         (Inr ''0xac9650d80x883164560x12210e8a''),
       EstimateGas \<lparr>tx_to = ''0x1a4d'', tx_data = ''0xac9650d80x883164560x12210e8a'',
                    tx_value = 1500000000000000000, tx_gasLimit = 500000\<rparr>
         (Inl (Error (CodeString ''CALL_EXCEPTION'') (Some ''execution reverted''))),
       SendTransaction \<lparr>tx_to = ''0x1a4d'', tx_data = ''0xac9650d80x883164560x12210e8a'',
                        tx_value = 1500000000000000000, tx_gasLimit = 600000\<rparr>
         (Inr ''0xb2''),
       PollReceipt ''0xb2'' 1 60000 (Inr (Some \<lparr>status = 1\<rparr>))])"
  apply (simp add: addLiquidity_def toUpperCase_examples tokenMap_def falsy_def desired0_def
           desired1_def order_token0_def order_token1_def parseEther_examples testConfig_def)
  apply (simp add: run_defs)
  apply (simp add: order_token0_def order_token1_def Let_def)
  done

lemma run_swapped:
  "addLiquidity testGateway testConfig
      (world0\<lparr>allowances := [(''0xed59'', 2000000000000000000)]\<rparr>)
      ''USDT'' ''PHRS'' ''3'' ''1'' =
     (Some ''0xb2'',
      world0\<lparr>allowances := [(''0x76aa'', MaxUint256), (''0xed59'', 2000000000000000000)]\<rparr>,
      [ApproveTokenCall ''0xed59'' ''0x1a4d'' 1000000000000000000,
       AllowanceRead ''0xed59'' ''0x5e1f'' ''0x1a4d'' (Inr 2000000000000000000),
       ApproveTokenCall ''0x76aa'' ''0x1a4d'' 3000000000000000000,
       AllowanceRead ''0x76aa'' ''0x5e1f'' ''0x1a4d'' (Inr 0),
       ApproveTx ''0x76aa'' ''0x1a4d'' MaxUint256 (Inr ''0xa1''),
       PollReceipt ''0xa1'' 1 60000 (Inr (Some \<lparr>status = 1\<rparr>)),
       Encode (Mint \<lparr>token0 = ''0x76aa'', token1 = ''0xed59'', fee = 500,
                     tickLower = - 887220, tickUpper = 887220,
                     amount0Desired = 1000000000000000000,
                     amount1Desired = 3000000000000000000,
                     amount0Min = 0, amount1Min = 0, recipient = ''0x5e1f'',
                     deadline = 1700001800\<rparr>) (Inr ''0x88316456''),
       Encode RefundETH (Inr ''0x12210e8a''),
       Encode (Multicall [''0x88316456'', ''0x12210e8a''])
         (Inr ''0xac9650d80x883164560x12210e8a''),
       EstimateGas \<lparr>tx_to = ''0x1a4d'', tx_data = ''0xac9650d80x883164560x12210e8a'',
                    tx_value = 1000000000000000000, tx_gasLimit = 500000\<rparr> (Inr 100000),
       SendTransaction \<lparr>tx_to = ''0x1a4d'', tx_data = ''0xac9650d80x883164560x12210e8a'',
                        tx_value = 1000000000000000000, tx_gasLimit = 120000\<rparr>
         (Inr ''0xb2''),
       PollReceipt ''0xb2'' 1 60000 (Inr (Some \<lparr>status = 1\<rparr>))])"
  apply (simp add: addLiquidity_def toUpperCase_examples tokenMap_def falsy_def desired0_def
           desired1_def order_token0_def order_token1_def parseEther_examples testConfig_def)
  apply (simp add: run_defs)
  apply (simp add: order_token0_def order_token1_def Let_def)
  done

lemma run_same_token:
  "addLiquidity testGateway testConfig
      (world0\<lparr>allowances := [(''0xed59'', MaxUint256)]\<rparr>)
      ''USDT'' ''USDT'' ''1'' ''3'' =
     (Some ''0xb2'',
      world0\<lparr>allowances := [(''0xed59'', MaxUint256)]\<rparr>,
      [ApproveTokenCall ''0xed59'' ''0x1a4d'' 1000000000000000000,
       AllowanceRead ''0xed59'' ''0x5e1f'' ''0x1a4d'' (Inr MaxUint256),
       ApproveTokenCall ''0xed59'' ''0x1a4d'' 3000000000000000000,
       AllowanceRead ''0xed59'' ''0x5e1f'' ''0x1a4d'' (Inr MaxUint256),
       Encode (Mint \<lparr>token0 = ''0xed59'', token1 = ''0xed59'', fee = 500,
                     tickLower = - 887220, tickUpper = 887220,
                     amount0Desired = 1000000000000000000,
                     amount1Desired = 3000000000000000000,
                     amount0Min = 0, amount1Min = 0, recipient = ''0x5e1f'',
                     deadline = 1700001800\<rparr>) (Inr ''0x88316456''),
       Encode RefundETH (Inr ''0x12210e8a''),
       Encode (Multicall [''0x88316456'', ''0x12210e8a''])
         (Inr ''0xac9650d80x883164560x12210e8a''),
       EstimateGas \<lparr>tx_to = ''0x1a4d'', tx_data = ''0xac9650d80x883164560x12210e8a'',
                    tx_value = 0, tx_gasLimit = 500000\<rparr> (Inr 100000),
       SendTransaction \<lparr>tx_to = ''0x1a4d'', tx_data = ''0xac9650d80x883164560x12210e8a'',
                        tx_value = 0, tx_gasLimit = 120000\<rparr>
         (Inr ''0xb2''),
       PollReceipt ''0xb2'' 1 60000 (Inr (Some \<lparr>status = 1\<rparr>))])"
  apply (simp add: addLiquidity_def toUpperCase_examples tokenMap_def falsy_def desired0_def
           desired1_def order_token0_def order_token1_def parseEther_examples testConfig_def)
  apply (simp add: run_defs)
  apply (simp add: order_token0_def order_token1_def Let_def)
  done

subsection \<open>addLiquidity: the claims\<close>

text \<open>
  C4. \<open>addLiquidity\<close> returns a hash only when the run ends with a poll of that very
  transaction that answered with a receipt of status 1, after at most five polls of
  it. And when a poll made after the broadcast answered with a receipt of another
  status, the result is \<open>null\<close> (for a hash that does not itself hold
  \<open>eth_getTransactionReceipt\<close>, as no transaction hash does).
\<close>

theorem addLiquidity_hash_only_if_confirmed:
  assumes "addLiquidity gw cfg c tokenA tokenB amountA amountB = (r, c', evs)"
  shows "(\<forall>h. r = Some h \<longrightarrow>
            (\<exists>pre txp post rc.
               evs = pre @ SendTransaction txp (Inr h) # post @
                       [PollReceipt h 1 60000 (Inr (Some rc))]
               \<and> status rc = 1 \<and> list_all pollEvent post
               \<and> length (filter isPoll post) < 5))
    \<and> (\<forall>pre txp h post rc n t.
            evs = pre @ SendTransaction txp (Inr h) # post
            \<and> PollReceipt h n t (Inr (Some rc)) \<in> set post \<and> status rc \<noteq> 1
            \<and> \<not> str_includes h ''eth_getTransactionReceipt''
          \<longrightarrow> r = None)"
proof (cases r)
  case None
  then show ?thesis by simp
next
  case (Some h0)
  from addLiquidity_some [OF assms [unfolded Some]] obtain pre0 txp0 c2 rc0 wevs where
    evs: "evs = pre0 @ SendTransaction txp0 (Inr h0) # wevs"
    and pre0: "list_all (\<lambda>e. \<not> isSend e) pre0"
    and w: "waitForTransaction gw c2 h0 1 5 5000 = (Inr (Some rc0), c', wevs)"
    by blast
  have wl: "waitForTransaction_loop gw c2 h0 1 5 5000 1 = (Inr (Some rc0), c', wevs)"
    using w by (simp add: waitForTransaction_def)
  from loop_some [OF wl] obtain init where
    st: "status rc0 = 1" and init: "wevs = init @ [PollReceipt h0 1 60000 (Inr (Some rc0))]"
    by blast
  have polls: "list_all pollEvent wevs" using wait_events_poll [OF w] .
  have "length (filter isPoll wevs) \<le> 5"
    using loop_polls_bound [of gw c2 h0 1 5 5000 1] wl by simp
  with init have few: "length (filter isPoll init) < 5" by simp
  have first: "\<exists>pre txp post rc.
               evs = pre @ SendTransaction txp (Inr h0) # post @
                       [PollReceipt h0 1 60000 (Inr (Some rc))]
               \<and> status rc = 1 \<and> list_all pollEvent post
               \<and> length (filter isPoll post) < 5"
    using evs init st few polls by auto
  have second: False
    if split: "evs = pre @ SendTransaction txp (Inr h) # post"
      and mem: "PollReceipt h n t (Inr (Some rc)) \<in> set post" and bad: "status rc \<noteq> 1"
      and hex: "\<not> str_includes h ''eth_getTransactionReceipt''"
    for pre txp h post rc n t
  proof -
    from split_at_send [OF pre0 pollEvent_not_send [OF polls] split [unfolded evs]]
    have "h = h0" "post = wevs" by simp_all
    with mem hex loop_failed_poll_none [OF wl _ bad] show False by auto
  qed
  from first second Some show ?thesis by blast
qed

theorem addLiquidity_hash_only_if_confirmed_witness:
  "fst (addLiquidity testGateway testConfig world0 ''PHRS'' ''USDT'' ''1.5'' ''3.0'') =
     Some ''0xb2''
   \<and> (\<exists>pre txp post rc.
         snd (snd (addLiquidity testGateway testConfig world0 ''PHRS'' ''USDT'' ''1.5'' ''3.0'')) =
           pre @ SendTransaction txp (Inr ''0xb2'') # post @
             [PollReceipt ''0xb2'' 1 60000 (Inr (Some rc))]
         \<and> status rc = 1 \<and> list_all pollEvent post \<and> length (filter isPoll post) < 5)
   \<and> fst (addLiquidity testGateway testConfig
            (world0\<lparr>allowances := [(''0x76aa'', MaxUint256), (''0xed59'', MaxUint256)],
                    pending := [Inr (Some \<lparr>status = 0\<rparr>)]\<rparr>)
            ''PHRS'' ''USDT'' ''1.5'' ''3.0'') = None"
proof -
  have ok: "fst (addLiquidity testGateway testConfig world0 ''PHRS'' ''USDT'' ''1.5'' ''3.0'') =
              Some ''0xb2''"
    by (simp add: run_phrs_usdt)
  have shape: "\<exists>pre txp post rc.
         snd (snd (addLiquidity testGateway testConfig world0 ''PHRS'' ''USDT'' ''1.5'' ''3.0'')) =
           pre @ SendTransaction txp (Inr ''0xb2'') # post @
             [PollReceipt ''0xb2'' 1 60000 (Inr (Some rc))]
         \<and> status rc = 1 \<and> list_all pollEvent post \<and> length (filter isPoll post) < 5"
    using addLiquidity_hash_only_if_confirmed [OF run_phrs_usdt, THEN conjunct1, rule_format,
            of "''0xb2''"]
    by (simp only: run_phrs_usdt snd_conv)
  let ?pre = "[ApproveTokenCall ''0x76aa'' ''0x1a4d'' 1500000000000000000,
       AllowanceRead ''0x76aa'' ''0x5e1f'' ''0x1a4d'' (Inr MaxUint256),
       ApproveTokenCall ''0xed59'' ''0x1a4d'' 3000000000000000000,
       AllowanceRead ''0xed59'' ''0x5e1f'' ''0x1a4d'' (Inr MaxUint256),
       Encode (Mint \<lparr>token0 = ''0x76aa'', token1 = ''0xed59'', fee = 500,
                     tickLower = - 887220, tickUpper = 887220,
                     amount0Desired = 1500000000000000000,
                     amount1Desired = 3000000000000000000,
                     amount0Min = 0, amount1Min = 0, recipient = ''0x5e1f'',
                     deadline = 1700001800\<rparr>) (Inr ''0x88316456''),
       Encode RefundETH (Inr ''0x12210e8a''),
       Encode (Multicall [''0x88316456'', ''0x12210e8a''])
         (Inr ''0xac9650d80x883164560x12210e8a''),
       EstimateGas \<lparr>tx_to = ''0x1a4d'', tx_data = ''0xac9650d80x883164560x12210e8a'',
                    tx_value = 1500000000000000000, tx_gasLimit = 500000\<rparr> (Inr 100000)]"
  obtain r c' evs where run: "addLiquidity testGateway testConfig
            (world0\<lparr>allowances := [(''0x76aa'', MaxUint256), (''0xed59'', MaxUint256)],
                    pending := [Inr (Some \<lparr>status = 0\<rparr>)]\<rparr>)
            ''PHRS'' ''USDT'' ''1.5'' ''3.0'' = (r, c', evs)"
    using prod_cases3 by blast
  have evs: "evs = ?pre @ SendTransaction
                 \<lparr>tx_to = ''0x1a4d'', tx_data = ''0xac9650d80x883164560x12210e8a'',
                  tx_value = 1500000000000000000, tx_gasLimit = 120000\<rparr> (Inr ''0xb2'') #
               [PollReceipt ''0xb2'' 1 60000 (Inr (Some \<lparr>status = 0\<rparr>))]"
    using run by (simp add: run_reverted)
  have "r = None"
    using addLiquidity_hash_only_if_confirmed [OF run, THEN conjunct2, rule_format,
            where pre = ?pre and h = "''0xb2''" and rc = "\<lparr>status = 0\<rparr>" and n = 1
              and t = 60000
              and post = "[PollReceipt ''0xb2'' 1 60000 (Inr (Some \<lparr>status = 0\<rparr>))]"] evs
    by simp
  with run have bad: "fst (addLiquidity testGateway testConfig
            (world0\<lparr>allowances := [(''0x76aa'', MaxUint256), (''0xed59'', MaxUint256)],
                    pending := [Inr (Some \<lparr>status = 0\<rparr>)]\<rparr>)
            ''PHRS'' ''USDT'' ''1.5'' ''3.0'') = None"
    by simp
  from ok shape bad show ?thesis by blast
qed

lemma approvalEvent_no_estimate:
  "list_all approvalEvent evs \<Longrightarrow> EstimateGas t est \<notin> set evs"
  by (induction evs) auto

lemma approvalEvent_no_encode:
  "list_all approvalEvent evs \<Longrightarrow> Encode f res \<notin> set evs"
  by (induction evs) auto

lemma pollEvent_no_estimate:
  "list_all pollEvent evs \<Longrightarrow> EstimateGas t est \<notin> set evs"
  by (induction evs) auto

lemma pollEvent_no_encode:
  "list_all pollEvent evs \<Longrightarrow> Encode f res \<notin> set evs"
  by (induction evs) auto

lemma sendLiquidity_estimate:
  assumes "sendLiquidity gw c txp = (r, c', evs)"
  shows "Encode f res \<notin> set evs"
    and "EstimateGas t est \<in> set evs \<Longrightarrow>
           t = txp \<and>
           (\<exists>tx. SendTransaction
                   (txp\<lparr>tx_gasLimit := (case est of Inl e \<Rightarrow> 500000 | Inr g \<Rightarrow> g) * 12 div 10\<rparr>)
                   tx \<in> set evs)"
proof -
  show "Encode f res \<notin> set evs"
  proof (cases rule: sendLiquidity_cases [where gw = gw and c = c and txp = txp])
    case (send_failed est c1 e c2)
    with assms show ?thesis by auto
  next
    case (sent est c1 h c2 rw c3 wevs)
    with assms pollEvent_no_encode [OF wait_events_poll [OF sent(3)]] show ?thesis by auto
  qed
  show "t = txp \<and>
           (\<exists>tx. SendTransaction
                   (txp\<lparr>tx_gasLimit := (case est of Inl e \<Rightarrow> 500000 | Inr g \<Rightarrow> g) * 12 div 10\<rparr>)
                   tx \<in> set evs)"
    if mem: "EstimateGas t est \<in> set evs"
  proof (cases rule: sendLiquidity_cases [where gw = gw and c = c and txp = txp])
    case (send_failed est' c1 e c2)
    with assms mem show ?thesis by auto
  next
    case (sent est' c1 h c2 rw c3 wevs)
    from assms sent(4) have evs: "evs = [EstimateGas txp est',
           SendTransaction
             (txp\<lparr>tx_gasLimit := (case est' of Inl e \<Rightarrow> 500000 | Inr g \<Rightarrow> g) * 12 div 10\<rparr>)
             (Inr h)] @ wevs"
      by simp
    from pollEvent_no_estimate [OF wait_events_poll [OF sent(3)]] mem evs
    have "t = txp" "est = est'" by auto
    with evs show ?thesis by auto
  qed
qed

lemma mintLiquidity_estimate:
  assumes "mintLiquidity gw cfg c t0 t1 a0 a1 = (r, c', evs)"
  shows "Encode (Mint p) res \<in> set evs \<Longrightarrow> p = mintParams gw cfg c t0 t1 a0 a1"
    and "EstimateGas t est \<in> set evs \<Longrightarrow>
           (\<exists>tx. SendTransaction
                   (t\<lparr>tx_gasLimit := (case est of Inl e \<Rightarrow> 500000 | Inr g \<Rightarrow> g) * 12 div 10\<rparr>)
                   tx \<in> set evs)"
proof -
  show "p = mintParams gw cfg c t0 t1 a0 a1" if mem: "Encode (Mint p) res \<in> set evs"
  proof (cases rule: mintLiquidity_cases [where gw = gw and cfg = cfg and c = c and ?t0.0 = t0
           and ?t1.0 = t1 and ?a0.0 = a0 and ?a1.0 = a1])
    case (mint_failed e)
    with assms mem show ?thesis by auto
  next
    case (refund_failed m e)
    with assms mem show ?thesis by auto
  next
    case (multicall_failed m rf e)
    with assms mem show ?thesis by auto
  next
    case (encoded m rf d r2 c2 evsS)
    with assms mem sendLiquidity_estimate(1) [OF encoded(1)] show ?thesis by auto
  qed
  show "\<exists>tx. SendTransaction
                   (t\<lparr>tx_gasLimit := (case est of Inl e \<Rightarrow> 500000 | Inr g \<Rightarrow> g) * 12 div 10\<rparr>)
                   tx \<in> set evs"
    if mem: "EstimateGas t est \<in> set evs"
  proof (cases rule: mintLiquidity_cases [where gw = gw and cfg = cfg and c = c and ?t0.0 = t0
           and ?t1.0 = t1 and ?a0.0 = a0 and ?a1.0 = a1])
    case (mint_failed e)
    with assms mem show ?thesis by auto
  next
    case (refund_failed m e)
    with assms mem show ?thesis by auto
  next
    case (multicall_failed m rf e)
    with assms mem show ?thesis by auto
  next
    case (encoded m rf d r2 c2 evsS)
    from assms encoded(2) have evs: "evs = [Encode (Mint (mintParams gw cfg c t0 t1 a0 a1)) (Inr m),
         Encode RefundETH (Inr rf), Encode (Multicall [m, rf]) (Inr d)] @ evsS"
      by simp
    with mem have "EstimateGas t est \<in> set evsS" by auto
    from sendLiquidity_estimate(2) [OF encoded(1) this] evs show ?thesis by auto
  qed
qed

lemma addLiquidity_mint_params:
  assumes "addLiquidity gw cfg c tokenA tokenB amountA amountB = (r, c', evs)"
    and "Encode (Mint p) res \<in> set evs"
  shows "\<exists>a b a0 a1 c2.
           tokenMap cfg (toUpperCase tokenA) = Some a \<and>
           tokenMap cfg (toUpperCase tokenB) = Some b \<and>
           desired0 a b amountA amountB = Inr a0 \<and> desired1 a b amountA amountB = Inr a1 \<and>
           p = mintParams gw cfg c2 (order_token0 a b) (order_token1 a b) a0 a1"
proof (cases rule: addLiquidity_cases [where gw = gw and cfg = cfg and c = c and tokenA = tokenA
         and tokenB = tokenB and amountA = amountA and amountB = amountB])
  case rejected
  with assms show ?thesis by simp
next
  case (unapproved a b a0 a1 okA c1 evsA okB c2 evsB)
  from approvalEvent_no_encode [OF approveToken_events(1) [OF unapproved(5)]]
    approvalEvent_no_encode [OF approveToken_events(1) [OF unapproved(6)]]
    assms unapproved(8)
  show ?thesis by auto
next
  case (approved a b a0 a1 c1 evsA c2 evsB r2 c3 evsM)
  from approvalEvent_no_encode [OF approveToken_events(1) [OF approved(5)]]
    approvalEvent_no_encode [OF approveToken_events(1) [OF approved(6)]]
    assms approved(8)
  have "Encode (Mint p) res \<in> set evsM" by auto
  from mintLiquidity_estimate(1) [OF approved(7) this] approved(1-4) show ?thesis by blast
qed

lemma addLiquidity_estimate:
  assumes "addLiquidity gw cfg c tokenA tokenB amountA amountB = (r, c', evs)"
    and "EstimateGas t est \<in> set evs"
  shows "\<exists>tx. SendTransaction
                 (t\<lparr>tx_gasLimit := (case est of Inl e \<Rightarrow> 500000 | Inr g \<Rightarrow> g) * 12 div 10\<rparr>)
                 tx \<in> set evs"
proof (cases rule: addLiquidity_cases [where gw = gw and cfg = cfg and c = c and tokenA = tokenA
         and tokenB = tokenB and amountA = amountA and amountB = amountB])
  case rejected
  with assms show ?thesis by simp
next
  case (unapproved a b a0 a1 okA c1 evsA okB c2 evsB)
  from approvalEvent_no_estimate [OF approveToken_events(1) [OF unapproved(5)]]
    approvalEvent_no_estimate [OF approveToken_events(1) [OF unapproved(6)]]
    assms unapproved(8)
  show ?thesis by auto
next
  case (approved a b a0 a1 c1 evsA c2 evsB r2 c3 evsM)
  from approvalEvent_no_estimate [OF approveToken_events(1) [OF approved(5)]]
    approvalEvent_no_estimate [OF approveToken_events(1) [OF approved(6)]]
    assms approved(8)
  have "EstimateGas t est \<in> set evsM" by auto
  from mintLiquidity_estimate(2) [OF approved(7) this] assms(1) approved(8)
  show ?thesis by auto
qed

text \<open>
  C9. A rejected gas estimate does not end the run: every gas estimate the run asks
  for, rejected or not, is followed by the broadcast of the same request with the gas
  limit set to the chosen value (500000 when the estimate was rejected) times 12
  divided by 10 in integer arithmetic, which is 600000 after a rejected estimate.
\<close>

theorem gas_limit_is_buffered:
  assumes "addLiquidity gw cfg c tokenA tokenB amountA amountB = (r, c', evs)"
  shows "(\<forall>t est. EstimateGas t est \<in> set evs \<longrightarrow>
            (\<exists>tx. SendTransaction
                    (t\<lparr>tx_gasLimit := (case est of Inl e \<Rightarrow> 500000 | Inr g \<Rightarrow> g) * 12 div 10\<rparr>)
                    tx \<in> set evs))
    \<and> (\<forall>t e. EstimateGas t (Inl e) \<in> set evs \<longrightarrow>
            (\<exists>tx. SendTransaction (t\<lparr>tx_gasLimit := 600000\<rparr>) tx \<in> set evs))"
proof -
  have general: "\<exists>tx. SendTransaction
                    (t\<lparr>tx_gasLimit := (case est of Inl e \<Rightarrow> 500000 | Inr g \<Rightarrow> g) * 12 div 10\<rparr>)
                    tx \<in> set evs"
    if "EstimateGas t est \<in> set evs" for t est
    using addLiquidity_estimate [OF assms that] .
  have fallback: "\<exists>tx. SendTransaction (t\<lparr>tx_gasLimit := 600000\<rparr>) tx \<in> set evs"
    if "EstimateGas t (Inl e) \<in> set evs" for t e
    using addLiquidity_estimate [OF assms that] by simp
  from general fallback show ?thesis by blast
qed

theorem gas_limit_is_buffered_witness:
  "fst (addLiquidity testGateway testConfig
          (world0\<lparr>allowances := [(''0x76aa'', MaxUint256), (''0xed59'', MaxUint256)],
                  gasAnswer := Inl (Error (CodeString ''CALL_EXCEPTION'') (Some ''execution reverted''))\<rparr>)
          ''PHRS'' ''USDT'' ''1.5'' ''3.0'') = Some ''0xb2''
   \<and> (\<exists>tx. SendTransaction
              \<lparr>tx_to = ''0x1a4d'', tx_data = ''0xac9650d80x883164560x12210e8a'',
               tx_value = 1500000000000000000, tx_gasLimit = 600000\<rparr> tx
            \<in> set (snd (snd (addLiquidity testGateway testConfig
                 (world0\<lparr>allowances := [(''0x76aa'', MaxUint256), (''0xed59'', MaxUint256)],
                         gasAnswer :=
                           Inl (Error (CodeString ''CALL_EXCEPTION'') (Some ''execution reverted''))\<rparr>)
                 ''PHRS'' ''USDT'' ''1.5'' ''3.0''))))
   \<and> (\<exists>tx. SendTransaction
              \<lparr>tx_to = ''0x1a4d'', tx_data = ''0xac9650d80x883164560x12210e8a'',
               tx_value = 1500000000000000000, tx_gasLimit = 120000\<rparr> tx
            \<in> set (snd (snd (addLiquidity testGateway testConfig world0
                 ''PHRS'' ''USDT'' ''1.5'' ''3.0''))))"
proof -
  let ?w = "world0\<lparr>allowances := [(''0x76aa'', MaxUint256), (''0xed59'', MaxUint256)],
                  gasAnswer := Inl (Error (CodeString ''CALL_EXCEPTION'') (Some ''execution reverted''))\<rparr>"
  let ?t = "\<lparr>tx_to = ''0x1a4d'', tx_data = ''0xac9650d80x883164560x12210e8a'',
             tx_value = 1500000000000000000, tx_gasLimit = 500000\<rparr>"
  have ok: "fst (addLiquidity testGateway testConfig ?w ''PHRS'' ''USDT'' ''1.5'' ''3.0'') =
              Some ''0xb2''"
    by (simp add: run_no_estimate)
  have "\<exists>tx. SendTransaction (?t\<lparr>tx_gasLimit := 600000\<rparr>) tx
            \<in> set (snd (snd (addLiquidity testGateway testConfig ?w
                 ''PHRS'' ''USDT'' ''1.5'' ''3.0'')))"
    using gas_limit_is_buffered [OF run_no_estimate, THEN conjunct2, rule_format,
            where t = ?t and e = "Error (CodeString ''CALL_EXCEPTION'') (Some ''execution reverted'')"]
    by (simp add: run_no_estimate)
  then have fallback: "\<exists>tx. SendTransaction
              \<lparr>tx_to = ''0x1a4d'', tx_data = ''0xac9650d80x883164560x12210e8a'',
               tx_value = 1500000000000000000, tx_gasLimit = 600000\<rparr> tx
            \<in> set (snd (snd (addLiquidity testGateway testConfig ?w
                 ''PHRS'' ''USDT'' ''1.5'' ''3.0'')))"
    by simp
  have "\<exists>tx. SendTransaction
             (?t\<lparr>tx_gasLimit := (case Inr 100000 of Inl e \<Rightarrow> 500000 | Inr g \<Rightarrow> g) * 12 div 10\<rparr>) tx
            \<in> set (snd (snd (addLiquidity testGateway testConfig world0
                 ''PHRS'' ''USDT'' ''1.5'' ''3.0'')))"
    using gas_limit_is_buffered [OF run_phrs_usdt, THEN conjunct1, rule_format,
            where t = ?t and est = "Inr 100000"]
    by (simp add: run_phrs_usdt)
  then have estimated: "\<exists>tx. SendTransaction
              \<lparr>tx_to = ''0x1a4d'', tx_data = ''0xac9650d80x883164560x12210e8a'',
               tx_value = 1500000000000000000, tx_gasLimit = 120000\<rparr> tx
            \<in> set (snd (snd (addLiquidity testGateway testConfig world0
                 ''PHRS'' ''USDT'' ''1.5'' ''3.0'')))"
    by simp
  from ok fallback estimated show ?thesis by blast
qed

subsection \<open>parseEther on decimal strings\<close>

lemma foldl_digits:
  fixes F :: "nat \<Rightarrow> char \<Rightarrow> nat"
  assumes F: "\<And>n ch. F n ch = 10 * n + digitVal ch"
  shows "foldl F k ds = k * 10 ^ length ds + foldl F 0 ds"
proof (induction ds arbitrary: k)
  case Nil
  show ?case by simp
next
  case (Cons d ds)
  have a: "foldl F (F k d) ds = F k d * 10 ^ length ds + foldl F 0 ds" by (rule Cons.IH)
  have b: "foldl F (F 0 d) ds = F 0 d * 10 ^ length ds + foldl F 0 ds" by (rule Cons.IH)
  show ?case by (simp add: a b) (simp add: F algebra_simps)
qed

lemma digitsVal_append:
  "digitsVal (xs @ ys) = digitsVal xs * 10 ^ length ys + digitsVal ys"
  unfolding digitsVal_def foldl_append
  by (rule foldl_digits) simp

lemma digitsVal_zeros: "digitsVal (replicate k (CHR ''0'')) = 0"
proof (induction k)
  case 0
  show ?case by (simp add: digitsVal_def)
next
  case (Suc k)
  have "digitsVal (CHR ''0'' # replicate k (CHR ''0'')) =
          digitsVal [CHR ''0''] * 10 ^ k + digitsVal (replicate k (CHR ''0''))"
    using digitsVal_append [of "[CHR ''0'']" "replicate k (CHR ''0'')"] by simp
  moreover have "digitsVal [CHR ''0''] = 0" by (simp add: digitsVal_def digitVal_def)
  ultimately show ?case using Suc by simp
qed

lemma zeros18: "''000000000000000000'' = replicate 18 (CHR ''0'')"
  by (simp add: numeral_eq_Suc)


lemma takeWhile_all_digits:
  "list_all isDigit f \<Longrightarrow> takeWhile isDigit f = f"
  "list_all isDigit f \<Longrightarrow> dropWhile isDigit f = []"
  by (induction f) auto


lemma parseEther_integer:
  assumes w: "list_all isDigit w" "w \<noteq> []"
    and bound: "int (digitsVal w) * 10 ^ 18 < 2 ^ 511"
  shows "parseEther w = Inr (int (digitsVal w) * 10 ^ 18)"
proof -
  obtain d ds where wd: "w = d # ds" using w(2) by (cases w) auto
  with w(1) have "isDigit d" by simp
  then have nominus: "d \<noteq> CHR ''-''" by (auto simp: isDigit_def)
  have neg: "startsWith w ''-'' = False" using wd nominus by simp
  have tw: "takeWhile isDigit w = w" and dw: "dropWhile isDigit w = []"
    using takeWhile_all_digits [OF w(1)] by simp_all
  have sw: "startsWith [] ''.'' = False" by simp
  have tf: "takeWhile isDigit [] = []" and df: "dropWhile isDigit [] = []" by simp_all
  have z: "list_all (\<lambda>ch. ch = CHR ''0'') (drop 18 []) = True" by simp
  have pad: "take 18 ([] @ ''000000000000000000'') = replicate 18 (CHR ''0'')"
    by (simp add: zeros18)
  have val: "int (digitsVal (w @ replicate 18 (CHR ''0''))) = int (digitsVal w) * 10 ^ 18"
    by (simp add: digitsVal_append digitsVal_zeros)
  have nonneg: "- (2 ^ 511) \<le> int (digitsVal w) * 10 ^ 18"
    by (rule order_trans [of _ 0]) simp_all
  have len: "0 < length w + length ([] :: string)" using w(2) by simp
  show ?thesis
    unfolding parseEther_def Let_def
    by (simp only: neg if_False tw dw sw tf df z pad val len nonneg bound if_True simp_thms)
qed

subsection \<open>addLiquidity: amounts, tokens and symbols\<close>



text \<open>
  What \<open>approveToken\<close> is asked for. The first call names token A and the second token
  B, but the amounts are those of \<open>token0\<close> and \<open>token1\<close>: when token B has the lower
  address, token A is checked against the amount of B and token B against the amount
  of A.
\<close>

lemma approval_requests_when_swapped:
  assumes "tokenMap cfg (toUpperCase tokenA) = Some a"
    and "tokenMap cfg (toUpperCase tokenB) = Some b"
    and "b \<noteq> []" and "b < a"
    and "parseEther amountA = Inr x" and "parseEther amountB = Inr y"
    and "addLiquidity gw cfg c tokenA tokenB amountA amountB = (r, c', evs)"
  shows "(\<exists>rd rest. evs = ApproveTokenCall a (ROUTER (contract cfg)) y #
            AllowanceRead a (walletAddress cfg) (ROUTER (contract cfg)) rd # rest)
    \<and> ApproveTokenCall b (ROUTER (contract cfg)) x \<in> set evs"
proof -
  from assms(4) have ne: "a \<noteq> []" "a \<noteq> b" "\<not> a < b" by auto
  then have t0: "order_token0 a b = b" by (simp add: order_token0_def)
  have d0: "desired0 a b amountA amountB = Inr y"
    using ne t0 assms(6) by (simp add: desired0_def)
  have d1: "desired1 a b amountA amountB = Inr x"
    using ne t0 assms(5) by (simp add: desired1_def)
  obtain okA c1 evsA where A:
    "approveToken gw cfg c a (ROUTER (contract cfg)) y = (okA, c1, evsA)"
    using prod_cases3 by blast
  obtain okB c2 evsB where B:
    "approveToken gw cfg c1 b (ROUTER (contract cfg)) x = (okB, c2, evsB)"
    using prod_cases3 by blast
  from approveToken_events(3) [OF A] obtain rdA restA where
    evsA: "evsA = ApproveTokenCall a (ROUTER (contract cfg)) y #
             AllowanceRead a (walletAddress cfg) (ROUTER (contract cfg)) rdA # restA"
    by blast
  from approveToken_events(3) [OF B] obtain rdB restB where
    evsB: "evsB = ApproveTokenCall b (ROUTER (contract cfg)) x #
             AllowanceRead b (walletAddress cfg) (ROUTER (contract cfg)) rdB # restB"
    by blast
  have "\<exists>more. evs = evsA @ evsB @ more"
    using assms(1,2,3,7) ne(1) d0 d1 A B
    by (auto simp add: addLiquidity_def falsy_def Let_def split: if_splits prod.splits)
  with evsA evsB show ?thesis by auto
qed

text \<open>
  C1 (the code at the failing input). \<open>addLiquidity("USDT", "PHRS", "3", "1")\<close> with
  the wrapped native token at the lower address and a USDT allowance of \<open>2 * 10^18\<close>:
  USDT is token A and becomes \<open>token1\<close>, its deposit is \<open>3 * 10^18\<close>, and
  \<open>approveToken\<close> is asked to cover \<open>1 * 10^18\<close> for it, the amount of the other token.
  The allowance passes that check, no approval is submitted for USDT, and the mint is
  broadcast with a USDT deposit above the allowance.
\<close>

theorem approval_request_below_deposit:
  "addLiquidity testGateway testConfig
      (world0\<lparr>allowances := [(''0xed59'', 2000000000000000000)]\<rparr>)
      ''USDT'' ''PHRS'' ''3'' ''1'' =
     (Some ''0xb2'',
      world0\<lparr>allowances := [(''0x76aa'', MaxUint256), (''0xed59'', 2000000000000000000)]\<rparr>,
      [ApproveTokenCall ''0xed59'' ''0x1a4d'' 1000000000000000000,
       AllowanceRead ''0xed59'' ''0x5e1f'' ''0x1a4d'' (Inr 2000000000000000000),
       ApproveTokenCall ''0x76aa'' ''0x1a4d'' 3000000000000000000,
       AllowanceRead ''0x76aa'' ''0x5e1f'' ''0x1a4d'' (Inr 0),
       ApproveTx ''0x76aa'' ''0x1a4d'' MaxUint256 (Inr ''0xa1''),
       PollReceipt ''0xa1'' 1 60000 (Inr (Some \<lparr>status = 1\<rparr>)),
       Encode (Mint \<lparr>token0 = ''0x76aa'', token1 = ''0xed59'', fee = 500,
                     tickLower = - 887220, tickUpper = 887220,
                     amount0Desired = 1000000000000000000,
                     amount1Desired = 3000000000000000000,
                     amount0Min = 0, amount1Min = 0, recipient = ''0x5e1f'',
                     deadline = 1700001800\<rparr>) (Inr ''0x88316456''),
       Encode RefundETH (Inr ''0x12210e8a''),
       Encode (Multicall [''0x88316456'', ''0x12210e8a''])
         (Inr ''0xac9650d80x883164560x12210e8a''),
       EstimateGas \<lparr>tx_to = ''0x1a4d'', tx_data = ''0xac9650d80x883164560x12210e8a'',
                    tx_value = 1000000000000000000, tx_gasLimit = 500000\<rparr> (Inr 100000),
       SendTransaction \<lparr>tx_to = ''0x1a4d'', tx_data = ''0xac9650d80x883164560x12210e8a'',
                        tx_value = 1000000000000000000, tx_gasLimit = 120000\<rparr>
         (Inr ''0xb2''),
       PollReceipt ''0xb2'' 1 60000 (Inr (Some \<lparr>status = 1\<rparr>))])"
  by (rule run_swapped)

theorem approval_request_below_deposit_witness:
  "ApproveTokenCall ''0xed59'' ''0x1a4d'' 1000000000000000000
     \<in> set (snd (snd (addLiquidity testGateway testConfig
                (world0\<lparr>allowances := [(''0xed59'', 2000000000000000000)]\<rparr>)
                ''USDT'' ''PHRS'' ''3'' ''1'')))
   \<and> filter isApproveTx (snd (snd (addLiquidity testGateway testConfig
                (world0\<lparr>allowances := [(''0xed59'', 2000000000000000000)]\<rparr>)
                ''USDT'' ''PHRS'' ''3'' ''1''))) =
       [ApproveTx ''0x76aa'' ''0x1a4d'' MaxUint256 (Inr ''0xa1'')]"
  using approval_request_below_deposit by simp

text \<open>
  C8 (as the code has it). The pair does not depend on the order of the arguments, the
  first address is never above the second, and it is strictly below whenever the two
  symbols resolve to different addresses. The mint parameters of a run carry that
  pair.
\<close>

theorem canonical_pair_order:
  assumes "tokenMap cfg (toUpperCase tokenA) = Some a"
    and "tokenMap cfg (toUpperCase tokenB) = Some b"
    and "addLiquidity gw cfg c tokenA tokenB amountA amountB = (r, c', evs)"
    and "addLiquidity gw cfg d tokenB tokenA amountB' amountA' = (r', d', evs')"
  shows "order_token0 a b = order_token0 b a \<and> order_token1 a b = order_token1 b a
    \<and> order_token0 a b \<le> order_token1 a b
    \<and> (a \<noteq> b \<longrightarrow> order_token0 a b < order_token1 a b)
    \<and> (\<forall>p res. Encode (Mint p) res \<in> set evs \<longrightarrow>
          token0 p = order_token0 a b \<and> token1 p = order_token1 a b)
    \<and> (\<forall>p res. Encode (Mint p) res \<in> set evs' \<longrightarrow>
          token0 p = order_token0 a b \<and> token1 p = order_token1 a b)"
proof -
  have sym: "order_token0 a b = order_token0 b a" "order_token1 a b = order_token1 b a"
    by (auto simp: order_token0_def order_token1_def)
  have le: "order_token0 a b \<le> order_token1 a b"
    by (auto simp: order_token0_def order_token1_def)
  have lt: "a \<noteq> b \<longrightarrow> order_token0 a b < order_token1 a b"
    by (auto simp: order_token0_def order_token1_def)
  have fwd: "token0 p = order_token0 a b \<and> token1 p = order_token1 a b"
    if "Encode (Mint p) res \<in> set evs" for p res
    using addLiquidity_mint_params [OF assms(3) that] assms(1,2)
    by (auto simp: mintParams_def)
  have bwd: "token0 p = order_token0 a b \<and> token1 p = order_token1 a b"
    if "Encode (Mint p) res \<in> set evs'" for p res
    using addLiquidity_mint_params [OF assms(4) that] assms(1,2) sym
    by (auto simp: mintParams_def)
  from sym le lt fwd bwd show ?thesis by blast
qed

theorem canonical_pair_order_witness:
  "order_token0 ''0x76aa'' ''0xed59'' = order_token0 ''0xed59'' ''0x76aa''
   \<and> order_token1 ''0x76aa'' ''0xed59'' = order_token1 ''0xed59'' ''0x76aa''
   \<and> order_token0 ''0x76aa'' ''0xed59'' < order_token1 ''0x76aa'' ''0xed59''
   \<and> order_token0 ''0x76aa'' ''0xed59'' = ''0x76aa''
   \<and> order_token1 ''0x76aa'' ''0xed59'' = ''0xed59''"
proof -
  have phrs: "tokenMap testConfig (toUpperCase ''PHRS'') = Some ''0x76aa''"
    and usdt: "tokenMap testConfig (toUpperCase ''USDT'') = Some ''0xed59''"
    by (simp_all add: toUpperCase_examples tokenMap_def testConfig_def)
  have o: "order_token0 ''0x76aa'' ''0xed59'' = ''0x76aa''"
    "order_token1 ''0x76aa'' ''0xed59'' = ''0xed59''"
    by (simp_all add: order_token0_def order_token1_def)
  have ne: "''0x76aa'' \<noteq> ''0xed59''" by simp
  note t = canonical_pair_order [OF phrs usdt run_phrs_usdt run_swapped]
  from t ne have "order_token0 ''0x76aa'' ''0xed59'' = order_token0 ''0xed59'' ''0x76aa''"
    "order_token1 ''0x76aa'' ''0xed59'' = order_token1 ''0xed59'' ''0x76aa''"
    "order_token0 ''0x76aa'' ''0xed59'' < order_token1 ''0x76aa'' ''0xed59''"
    by blast+
  with o show ?thesis by simp
qed

text \<open>
  The claim as the spec words it fails when both symbols resolve to one address: for
  \<open>("USDT", "USDT")\<close> the run goes through and the mint parameters have
  \<open>token0 = token1\<close>.
\<close>

theorem same_token_pair_not_strict:
  "tokenMap testConfig (toUpperCase ''USDT'') = Some ''0xed59''
   \<and> Encode (Mint \<lparr>token0 = ''0xed59'', token1 = ''0xed59'', fee = 500,
                     tickLower = - 887220, tickUpper = 887220,
                     amount0Desired = 1000000000000000000,
                     amount1Desired = 3000000000000000000,
                     amount0Min = 0, amount1Min = 0, recipient = ''0x5e1f'',
                     deadline = 1700001800\<rparr>) (Inr ''0x88316456'')
       \<in> set (snd (snd (addLiquidity testGateway testConfig
                  (world0\<lparr>allowances := [(''0xed59'', MaxUint256)]\<rparr>)
                  ''USDT'' ''USDT'' ''1'' ''3'')))
   \<and> \<not> order_token0 ''0xed59'' ''0xed59'' < order_token1 ''0xed59'' ''0xed59''"
proof -
  have "tokenMap testConfig (toUpperCase ''USDT'') = Some ''0xed59''"
    by (simp add: toUpperCase_examples tokenMap_def testConfig_def)
  moreover have "\<not> order_token0 ''0xed59'' ''0xed59'' < order_token1 ''0xed59'' ''0xed59''"
    by (simp add: order_token0_def order_token1_def)
  ultimately show ?thesis by (simp add: run_same_token)
qed

subsection \<open>Symbols\<close>

lemma toUpperCase_char_idem: "toUpperCase_char (toUpperCase_char ch) = toUpperCase_char ch"
  by (auto simp: toUpperCase_char_def less_eq_char_def)

lemma toUpperCase_idem: "toUpperCase (toUpperCase s) = toUpperCase s"
  by (simp add: toUpperCase_def toUpperCase_char_idem)

text \<open>
  C10. A symbol is looked up after \<open>toUpperCase\<close>, and \<open>toUpperCase\<close> changes nothing in
  a string it produced: a symbol and its upper-case form resolve alike, and a run
  with the upper-case forms is the same run. \<open>usdt\<close>, \<open>Usdt\<close> and \<open>USDT\<close> all resolve to
  the USDT address.
\<close>

theorem symbols_case_insensitive:
  "tokenMap cfg (toUpperCase (toUpperCase s)) = tokenMap cfg (toUpperCase s)
   \<and> addLiquidity gw cfg c (toUpperCase tokenA) (toUpperCase tokenB) amountA amountB =
       addLiquidity gw cfg c tokenA tokenB amountA amountB
   \<and> tokenMap cfg (toUpperCase ''usdt'') = Some (USDT (contract cfg))
   \<and> tokenMap cfg (toUpperCase ''Usdt'') = Some (USDT (contract cfg))
   \<and> tokenMap cfg (toUpperCase ''USDT'') = Some (USDT (contract cfg))"
  by (simp add: toUpperCase_idem addLiquidity_def toUpperCase_examples tokenMap_def)

theorem symbols_case_insensitive_witness:
  "addLiquidity testGateway testConfig world0 ''USDT'' ''USDT'' ''1'' ''3'' =
     addLiquidity testGateway testConfig world0 ''usdt'' ''Usdt'' ''1'' ''3''
   \<and> tokenMap testConfig (toUpperCase ''usdt'') = Some ''0xed59''"
proof -
  have "addLiquidity testGateway testConfig world0 (toUpperCase ''usdt'') (toUpperCase ''Usdt'')
          ''1'' ''3'' =
        addLiquidity testGateway testConfig world0 ''usdt'' ''Usdt'' ''1'' ''3''"
    using symbols_case_insensitive [of testConfig "''usdt''" testGateway world0
            "''usdt''" "''Usdt''" "''1''" "''3''"]
    by blast
  moreover have "tokenMap testConfig (toUpperCase ''usdt'') = Some ''0xed59''"
    using symbols_case_insensitive [of testConfig "''usdt''" testGateway world0
            "''usdt''" "''Usdt''" "''1''" "''3''"]
    by (simp add: testConfig_def)
  ultimately show ?thesis by (simp add: toUpperCase_examples)
qed

end
